theory Spec2Isabelle
  imports Complex_Main
begin

section \<open>The hero scene: render loop, rotation, motion blur, visibility, shader\<close>

text \<open>
  A shallow embedding of \<^verbatim>\<open>src/script.js\<close> and of the sliced fragment shader.
  JavaScript and GLSL numbers are read as real numbers (no rounding, no NaN).
  The module's \<^verbatim>\<open>let\<close> variables and the fields of the one
  \<^verbatim>\<open>VisibilityManager\<close> are the fields of a state record; each event handler is a
  function from the state to the state it leaves behind. The browser's part is explicit:
  the table of pending timeouts, the set of pending animation frames, and a list of the
  calls the page can observe. Within one handler \<^verbatim>\<open>performance.now()\<close> is
  read as the time stamp of the event that runs the handler.
\<close>

subsection \<open>Configuration\<close>

definition VISIBILITY_THRESHOLD :: real where "VISIBILITY_THRESHOLD = 0.1"
definition PAUSE_DELAY :: real where "PAUSE_DELAY = 500"
definition ENABLE_MOTION_BLUR :: bool where "ENABLE_MOTION_BLUR = True"
definition AUTO_ROTATE_SPEED :: real where "AUTO_ROTATE_SPEED = 0.1"
definition RESUME_DELAY :: real where "RESUME_DELAY = 700"
definition TRANSITION_DURATION :: real where "TRANSITION_DURATION = 1200"

record motion_settings =
  motion_enabled :: bool
  intensity :: real

definition motionSettings :: motion_settings where
  "motionSettings = \<lparr> motion_enabled = ENABLE_MOTION_BLUR, intensity = 5.0 \<rparr>"

record rotation_settings =
  enabled :: bool
  speed :: real
  pauseOnInteraction :: bool
  resumeDelay :: real
  smoothTransition :: bool
  transitionDuration :: real

definition rotationSettings :: rotation_settings where
  "rotationSettings =
     \<lparr> enabled = True, speed = AUTO_ROTATE_SPEED, pauseOnInteraction = True,
       resumeDelay = RESUME_DELAY, smoothTransition = True,
       transitionDuration = TRANSITION_DURATION \<rparr>"

definition velocitySmoothing :: real where "velocitySmoothing = 0.9"

subsection \<open>The frame clock\<close>

text \<open>
  Modelled from the spec: \<^verbatim>\<open>THREE.Clock\<close> belongs to the three.js library and is not
  under \<^verbatim>\<open>src/\<close>. The spec's FrameClock tracks the time since the last tick in
  seconds, has a running flag and is reset to a zero delta on resume; the record and the
  three operations below are that clock, with the field names of the library class:
  \<^verbatim>\<open>start\<close> moves the baseline to the present, \<^verbatim>\<open>getDelta\<close> returns the
  seconds since the baseline and moves it, \<^verbatim>\<open>stop\<close> clears the running flag.
  Time stamps are milliseconds.
\<close>

record Clock =
  autoStart :: bool
  startTime :: real
  oldTime :: real
  elapsedTime :: real
  running :: bool

definition new_Clock :: Clock where
  "new_Clock = \<lparr> autoStart = True, startTime = 0, oldTime = 0, elapsedTime = 0, running = False \<rparr>"

definition clock_start :: "real \<Rightarrow> Clock \<Rightarrow> Clock" where
  "clock_start t c = c\<lparr> startTime := t, oldTime := t, elapsedTime := 0, running := True \<rparr>"

definition clock_getDelta :: "real \<Rightarrow> Clock \<Rightarrow> real \<times> Clock" where
  "clock_getDelta t c =
     (if autoStart c \<and> \<not> running c then (0, clock_start t c)
      else if running c then
        (let diff = (t - oldTime c) / 1000
         in (diff, c\<lparr> oldTime := t, elapsedTime := elapsedTime c + diff \<rparr>))
      else (0, c))"

definition clock_stop :: "real \<Rightarrow> Clock \<Rightarrow> Clock" where
  "clock_stop t c = (snd (clock_getDelta t c))\<lparr> running := False, autoStart := False \<rparr>"

subsection \<open>State\<close>

datatype mode = Webflow | Vite

datatype timer_kind = ResumeTimer | PauseTimer

datatype error = RenderError

datatype effect =
    LogInfo string
  | LogSuccess string
  | LogError string
  | ControlsUpdate
  | Render
  | DispatchEvent string
  | Uncaught error

text \<open>
  \<open>model\<close> is \<open>None\<close> while the script's \<^verbatim>\<open>model\<close> is \<^verbatim>\<open>null\<close> and
  \<open>Some y\<close> once the scene is loaded, \<open>y\<close> being \<^verbatim>\<open>model.rotation.y\<close>.
  \<open>timers\<close> lists the pending timeouts: id, callback and the time it is due;
  \<open>frames\<close> holds the ids of the pending animation frame requests (their callback is always
  \<^verbatim>\<open>tick\<close>). \<open>lastDelta\<close> keeps the local \<^verbatim>\<open>delta\<close> of the latest tick so
  that it can be observed; nothing reads it.
\<close>

record state =
  isVisible :: bool
  pauseTimeout :: "nat option"
  observer :: bool
  uAngularVelocity :: real
  model :: "real option"
  autoRotate :: bool
  userInteracting :: bool
  resumeTimeout :: "nat option"
  rotationSpeedMultiplier :: real
  transitionStartTime :: real
  isMouseDown :: bool
  isTouching :: bool
  previousRotation :: real
  smoothedVelocity :: real
  clock :: Clock
  isRendering :: bool
  animationFrameId :: "nat option"
  timers :: "(nat \<times> timer_kind \<times> real) list"
  nextTimerId :: nat
  frames :: "nat set"
  nextFrameId :: nat
  effects :: "effect list"
  lastDelta :: real

record env =
  now :: real
  renderThrows :: bool

type_synonym result = "(error \<times> state) + state"

text \<open>
  The state the module's declarations leave, just before the first call of \<^verbatim>\<open>tick\<close>.
  The log lines of start-up are not recorded.
\<close>

definition init :: "mode \<Rightarrow> state" where
  "init m =
     \<lparr> isVisible = True, pauseTimeout = None, observer = (m = Webflow),
       uAngularVelocity = 0.0, model = None,
       autoRotate = True, userInteracting = False, resumeTimeout = None,
       rotationSpeedMultiplier = 1.0, transitionStartTime = 0,
       isMouseDown = False, isTouching = False,
       previousRotation = 0, smoothedVelocity = 0,
       clock = new_Clock, isRendering = True, animationFrameId = None,
       timers = [], nextTimerId = 1, frames = {}, nextFrameId = 1,
       effects = [], lastDelta = 0 \<rparr>"

subsection \<open>Browser primitives\<close>

text \<open>A timer or frame id is a positive integer; \<^verbatim>\<open>null\<close> and 0 are falsy.\<close>

fun truthy :: "nat option \<Rightarrow> bool" where
  "truthy None = False"
| "truthy (Some n) = (n \<noteq> 0)"

definition emit :: "effect \<Rightarrow> state \<Rightarrow> state" where
  "emit x s = s\<lparr> effects := effects s @ [x] \<rparr>"

definition setTimeout :: "timer_kind \<Rightarrow> real \<Rightarrow> real \<Rightarrow> state \<Rightarrow> nat \<times> state" where
  "setTimeout k delay t s =
     (nextTimerId s,
      s\<lparr> timers := timers s @ [(nextTimerId s, k, t + delay)],
         nextTimerId := Suc (nextTimerId s) \<rparr>)"

definition clearTimeout :: "nat option \<Rightarrow> state \<Rightarrow> state" where
  "clearTimeout h s =
     (case h of None \<Rightarrow> s | Some i \<Rightarrow> s\<lparr> timers := filter (\<lambda>x. fst x \<noteq> i) (timers s) \<rparr>)"

definition requestAnimationFrame :: "state \<Rightarrow> nat \<times> state" where
  "requestAnimationFrame s =
     (nextFrameId s,
      s\<lparr> frames := insert (nextFrameId s) (frames s), nextFrameId := Suc (nextFrameId s) \<rparr>)"

definition cancelAnimationFrame :: "nat option \<Rightarrow> state \<Rightarrow> state" where
  "cancelAnimationFrame h s = (case h of None \<Rightarrow> s | Some i \<Rightarrow> s\<lparr> frames := frames s - {i} \<rparr>)"

subsection \<open>Auto-rotation system\<close>

definition easePower2Out :: "real \<Rightarrow> real" where
  "easePower2Out t = t * (2 - t)"

definition resumeRotation :: "env \<Rightarrow> state \<Rightarrow> state" where
  "resumeRotation e s =
     (let s1 = s\<lparr> userInteracting := False \<rparr>
      in if pauseOnInteraction rotationSettings \<and> enabled rotationSettings then
           (let s2 = clearTimeout (resumeTimeout s1) s1;
                (i, s3) = setTimeout ResumeTimer (resumeDelay rotationSettings) (now e) s2
            in s3\<lparr> resumeTimeout := Some i \<rparr>)
         else s1)"

text \<open>The callback that \<^verbatim>\<open>resumeRotation\<close> hands to \<^verbatim>\<open>setTimeout\<close>.\<close>

definition resume_callback :: "env \<Rightarrow> state \<Rightarrow> state" where
  "resume_callback e s =
     (if \<not> userInteracting s then
        (let s1 = s\<lparr> autoRotate := True \<rparr>
         in if smoothTransition rotationSettings then
              s1\<lparr> rotationSpeedMultiplier := 0.0, transitionStartTime := now e \<rparr>
            else s1\<lparr> rotationSpeedMultiplier := 1.0 \<rparr>)
      else s)"

text \<open>The listener of the controls' \<^verbatim>\<open>start\<close> event.\<close>

definition controls_start :: "state \<Rightarrow> state" where
  "controls_start s =
     (if isMouseDown s \<or> isTouching s then
        (let s1 = s\<lparr> userInteracting := True \<rparr>;
             s2 = (if pauseOnInteraction rotationSettings
                   then s1\<lparr> autoRotate := False, rotationSpeedMultiplier := 0.0 \<rparr> else s1)
         in clearTimeout (resumeTimeout s2) s2)
      else s)"

text \<open>The listener of the controls' \<^verbatim>\<open>end\<close> event.\<close>

definition controls_end :: "env \<Rightarrow> state \<Rightarrow> state" where
  "controls_end e s = (if userInteracting s then resumeRotation e s else s)"

subsection \<open>Animation loop\<close>

text \<open>The three blocks of \<^verbatim>\<open>tick\<close> that run when the model is there.\<close>

definition rotation_transition :: "real \<Rightarrow> state \<Rightarrow> state" where
  "rotation_transition t s =
     (if autoRotate s \<and> smoothTransition rotationSettings \<and> rotationSpeedMultiplier s < 1.0 then
        (let transitionElapsed = t - transitionStartTime s;
             transitionProgress = min (transitionElapsed / transitionDuration rotationSettings) 1.0
         in s\<lparr> rotationSpeedMultiplier := easePower2Out transitionProgress \<rparr>)
      else s)"

definition auto_rotate :: "real \<Rightarrow> real \<Rightarrow> state \<Rightarrow> real" where
  "auto_rotate delta y s =
     (if autoRotate s \<and> \<not> userInteracting s \<and> enabled rotationSettings then
        (let rotationSpeed = speed rotationSettings * rotationSpeedMultiplier s
         in y + rotationSpeed * delta)
      else y)"

definition motion_blur :: "real \<Rightarrow> real \<Rightarrow> state \<Rightarrow> state" where
  "motion_blur delta currentRotation s =
     (let rawVelocity = \<bar>currentRotation - previousRotation s\<bar> / max delta 0.001;
          s1 = s\<lparr> smoothedVelocity :=
                   smoothedVelocity s * velocitySmoothing + rawVelocity * (1 - velocitySmoothing) \<rparr>;
          normalizedVelocity = min (smoothedVelocity s1 * intensity motionSettings) 1.0;
          s2 = (if \<bar>uAngularVelocity s1 - normalizedVelocity\<bar> > 0.01
                then s1\<lparr> uAngularVelocity := normalizedVelocity \<rparr> else s1)
      in s2\<lparr> previousRotation := currentRotation \<rparr>)"

definition update_model :: "real \<Rightarrow> real \<Rightarrow> real \<Rightarrow> state \<Rightarrow> state" where
  "update_model t delta y s =
     (let s1 = rotation_transition t s;
          y1 = auto_rotate delta y s1;
          s2 = s1\<lparr> model := Some y1 \<rparr>
      in if motion_enabled motionSettings then motion_blur delta y1 s2 else s2)"

text \<open>
  \<^verbatim>\<open>renderer.render\<close> either returns or throws, as the environment says; the script has
  no \<^verbatim>\<open>try\<close>, so a throw leaves \<^verbatim>\<open>tick\<close> at that statement, with the
  assignments made so far in place.
\<close>

definition tick :: "env \<Rightarrow> state \<Rightarrow> result" where
  "tick e s =
     (if \<not> isRendering s then Inr s
      else
        (let (delta, c) = clock_getDelta (now e) (clock s);
             s1 = s\<lparr> clock := c, lastDelta := delta \<rparr>;
             s2 = (case model s1 of
                     Some y \<Rightarrow> update_model (now e) delta y s1
                   | None \<Rightarrow> s1);
             s3 = emit ControlsUpdate s2
         in if renderThrows e then Inl (RenderError, s3)
            else
              (let s4 = emit Render s3;
                   (i, s5) = requestAnimationFrame s4
               in Inr (s5\<lparr> animationFrameId := Some i \<rparr>))))"

definition handleVisibilityChange :: "env \<Rightarrow> bool \<Rightarrow> state \<Rightarrow> result" where
  "handleVisibilityChange e visible s =
     (if visible \<and> \<not> isRendering s then
        (let s1 = s\<lparr> isRendering := True \<rparr>;
             s2 = s1\<lparr> clock := clock_start (now e) (clock s1) \<rparr>;
             s3 = emit (LogInfo ''Rendering resumed'') s2
         in tick e s3)
      else if \<not> visible \<and> isRendering s then
        (let s1 = s\<lparr> isRendering := False \<rparr>;
             s2 = (if truthy (animationFrameId s1)
                   then (cancelAnimationFrame (animationFrameId s1) s1)\<lparr> animationFrameId := None \<rparr>
                   else s1);
             s3 = s2\<lparr> clock := clock_stop (now e) (clock s2) \<rparr>
         in Inr (emit (LogInfo ''Rendering paused (saving resources)'') s3))
      else Inr s)"

subsection \<open>Visibility manager\<close>

text \<open>The body of the observer's \<^verbatim>\<open>entries.forEach\<close>, for one entry.\<close>

definition observer_entry :: "env \<Rightarrow> bool \<Rightarrow> state \<Rightarrow> result" where
  "observer_entry e isIntersecting s =
     (let wasVisible = isVisible s;
          s1 = s\<lparr> isVisible := isIntersecting \<rparr>;
          s2 = (if truthy (pauseTimeout s1)
                then (clearTimeout (pauseTimeout s1) s1)\<lparr> pauseTimeout := None \<rparr>
                else s1)
      in if isVisible s2 \<and> \<not> wasVisible then
           handleVisibilityChange e True (emit (LogInfo ''Hero visible - rendering resumed'') s2)
         else if \<not> isVisible s2 \<and> wasVisible then
           (let s3 = emit (LogInfo ''Hero invisible - pausing in 500ms'') s2;
                (i, s4) = setTimeout PauseTimer PAUSE_DELAY (now e) s3
            in Inr (s4\<lparr> pauseTimeout := Some i \<rparr>))
         else Inr s2)"

text \<open>An exception thrown for one entry ends the \<^verbatim>\<open>forEach\<close>.\<close>

fun observer_callback :: "env \<Rightarrow> bool list \<Rightarrow> state \<Rightarrow> result" where
  "observer_callback e [] s = Inr s"
| "observer_callback e (x # xs) s =
     (case observer_entry e x s of
        Inl err \<Rightarrow> Inl err
      | Inr s' \<Rightarrow> observer_callback e xs s')"

subsection \<open>Events\<close>

datatype event =
    MouseDown int
  | MouseUp
  | MouseLeave
  | TouchStart
  | TouchEnd
  | TouchCancel
  | ControlsStart
  | ControlsEnd
  | Intersection "bool list"
  | Timeout nat
  | AnimationFrame nat
  | ModelLoaded real
  | ModelError

definition timer_callback :: "env \<Rightarrow> timer_kind \<Rightarrow> state \<Rightarrow> result" where
  "timer_callback e k s =
     (case k of
        ResumeTimer \<Rightarrow> Inr (resume_callback e s)
      | PauseTimer \<Rightarrow> handleVisibilityChange e False s)"

text \<open>
  What the listener of each event does. The browser runs a timeout only while it is pending
  and not before it is due, and an animation frame callback only while it is pending; the
  observer exists in Webflow mode only. \<open>ModelLoaded y\<close> is the loader's success callback for
  a scene whose \<^verbatim>\<open>rotation.y\<close> is \<open>y\<close>; of the two loader callbacks only the
  assignment to \<^verbatim>\<open>model\<close>, the log line and the dispatched event are kept (materials,
  shadows, the timing line and the fallback styling touch nothing below). The cursor style,
  which every pointer listener also sets, is left out, and so are the listeners that change
  none of this state: load progress, resize and the clean-up at unload.
\<close>

fun deliver :: "env \<Rightarrow> event \<Rightarrow> state \<Rightarrow> result" where
  "deliver e (MouseDown button) s = Inr (if button = 0 then s\<lparr> isMouseDown := True \<rparr> else s)"
| "deliver e MouseUp s = Inr (s\<lparr> isMouseDown := False \<rparr>)"
| "deliver e MouseLeave s =
     Inr (let s1 = s\<lparr> isMouseDown := False \<rparr>
          in if userInteracting s1 then resumeRotation e s1 else s1)"
| "deliver e TouchStart s = Inr (s\<lparr> isTouching := True \<rparr>)"
| "deliver e TouchEnd s = Inr (s\<lparr> isTouching := False \<rparr>)"
| "deliver e TouchCancel s = Inr (s\<lparr> isTouching := False \<rparr>)"
| "deliver e ControlsStart s = Inr (controls_start s)"
| "deliver e ControlsEnd s = Inr (controls_end e s)"
| "deliver e (Intersection entries) s =
     (if observer s then observer_callback e entries s else Inr s)"
| "deliver e (Timeout i) s =
     (case map_of (timers s) i of
        None \<Rightarrow> Inr s
      | Some (k, due) \<Rightarrow>
          if now e < due then Inr s
          else timer_callback e k (s\<lparr> timers := filter (\<lambda>x. fst x \<noteq> i) (timers s) \<rparr>))"
| "deliver e (AnimationFrame i) s =
     (if i \<in> frames s then tick e (s\<lparr> frames := frames s - {i} \<rparr>) else Inr s)"
| "deliver e (ModelLoaded y) s =
     Inr (emit (DispatchEvent ''webglReady'')
           (emit (LogSuccess ''3D model loaded'') (s\<lparr> model := Some y \<rparr>)))"
| "deliver e ModelError s =
     Inr (emit (DispatchEvent ''webglError'') (emit (LogError ''Failed to load 3D model'') s))"

text \<open>An exception that leaves a listener is reported by the browser; the state stays.\<close>

definition settle :: "result \<Rightarrow> state" where
  "settle r = (case r of Inl (err, s) \<Rightarrow> emit (Uncaught err) s | Inr s \<Rightarrow> s)"

definition step :: "env \<Rightarrow> event \<Rightarrow> state \<Rightarrow> state" where
  "step e ev s = settle (deliver e ev s)"

text \<open>The module's last statement, \<^verbatim>\<open>tick()\<close>, starts the loop.\<close>

definition boot :: "env \<Rightarrow> mode \<Rightarrow> state" where
  "boot e m = settle (tick e (init m))"

fun run :: "(env \<times> event) list \<Rightarrow> state \<Rightarrow> state" where
  "run [] s = s"
| "run ((e, ev) # es) s = run es (step e ev s)"

text \<open>Time stamps never decrease along a trace.\<close>

fun chronological :: "real \<Rightarrow> (env \<times> event) list \<Rightarrow> bool" where
  "chronological t [] = True"
| "chronological t ((e, ev) # es) = (t \<le> now e \<and> chronological (now e) es)"

subsection \<open>The rotation state machine, read off the variables\<close>

text \<open>
  The script has no state variable: the four states of the rotation state machine are the
  four combinations of \<^verbatim>\<open>userInteracting\<close>, \<^verbatim>\<open>autoRotate\<close> and a speed
  multiplier below one that its listeners and its timer produce.
\<close>

datatype rotation_state = AutoRotating | Interacting | ResumeScheduled | Transitioning

definition rotation_state_of :: "state \<Rightarrow> rotation_state" where
  "rotation_state_of s =
     (if userInteracting s then Interacting
      else if \<not> autoRotate s then ResumeScheduled
      else if rotationSpeedMultiplier s < 1 then Transitioning
      else AutoRotating)"

definition resume_pending :: "state \<Rightarrow> bool" where
  "resume_pending s = (\<exists>x \<in> set (timers s). fst (snd x) = ResumeTimer)"

definition pause_pending :: "state \<Rightarrow> bool" where
  "pause_pending s = (\<exists>x \<in> set (timers s). fst (snd x) = PauseTimer)"

text \<open>An event that ends an interaction: the script calls \<^verbatim>\<open>resumeRotation\<close> from these two.\<close>

fun interaction_end :: "event \<Rightarrow> bool" where
  "interaction_end ControlsEnd = True"
| "interaction_end MouseLeave = True"
| "interaction_end _ = False"

fun is_intersection :: "event \<Rightarrow> bool" where
  "is_intersection (Intersection _) = True"
| "is_intersection _ = False"

definition paused_count :: "state \<Rightarrow> nat" where
  "paused_count s = count_list (effects s) (LogInfo ''Rendering paused (saving resources)'')"

fun is_dispatch :: "effect \<Rightarrow> bool" where
  "is_dispatch (DispatchEvent _) = True"
| "is_dispatch _ = False"

subsection \<open>Ticks on a model that anything may have turned\<close>

text \<open>
  A run of ticks in which, before each tick, the model's \<^verbatim>\<open>rotation.y\<close> is set to
  an arbitrary value: \<open>(a, e)\<close> is a tick in environment \<open>e\<close> that finds the model at
  angle \<open>a\<close>.
\<close>

fun ticks :: "(real \<times> env) list \<Rightarrow> state \<Rightarrow> state" where
  "ticks [] s = s"
| "ticks ((a, e) # xs) s = ticks xs (settle (tick e (s\<lparr> model := Some a \<rparr>)))"

text \<open>The smoothed velocity after each tick of such a run.\<close>

fun smoothed_after :: "(real \<times> env) list \<Rightarrow> state \<Rightarrow> real list" where
  "smoothed_after [] s = []"
| "smoothed_after (x # xs) s =
     (let s' = ticks [x] s in smoothedVelocity s' # smoothed_after xs s')"

text \<open>
  The raw velocity of each tick of such a run, as the spec defines it: the distance between
  the angle this tick leaves and the angle \<open>p\<close> the tick before it left, over the tick's
  delta or a millisecond, whichever is larger. For the first tick of the run \<open>p\<close> is given.
\<close>

fun raw_velocities :: "real \<Rightarrow> (real \<times> env) list \<Rightarrow> state \<Rightarrow> real list" where
  "raw_velocities p [] s = []"
| "raw_velocities p (x # xs) s =
     (let s' = ticks [x] s; a = the (model s')
      in (\<bar>a - p\<bar> / max (lastDelta s') (1 / 1000)) # raw_velocities a xs s')"

text \<open>The spec's recurrence \<open>s\<^sub>n = 0.9 \<cdot> s\<^sub>n\<^sub>-\<^sub>1 + 0.1 \<cdot> raw\<^sub>n\<close>.\<close>

fun ema :: "real \<Rightarrow> real list \<Rightarrow> real list" where
  "ema s [] = []"
| "ema s (r # rs) = (let s' = 0.9 * s + 0.1 * r in s' # ema s' rs)"

subsection \<open>The sliced fragment shader\<close>

text \<open>
  The GLSL built-ins \<^verbatim>\<open>clamp\<close>, \<^verbatim>\<open>smoothstep\<close>, \<^verbatim>\<open>mod\<close> and the two-argument
  \<^verbatim>\<open>atan\<close>, as the language defines them (\<^verbatim>\<open>smoothstep\<close> for \<open>edge0 < edge1\<close>,
  \<^verbatim>\<open>atan\<close> away from the origin).
\<close>

definition clamp :: "real \<Rightarrow> real \<Rightarrow> real \<Rightarrow> real" where
  "clamp x lo hi = min (max x lo) hi"

definition smoothstep :: "real \<Rightarrow> real \<Rightarrow> real \<Rightarrow> real" where
  "smoothstep edge0 edge1 x =
     (let t = clamp ((x - edge0) / (edge1 - edge0)) 0 1 in t * t * (3 - 2 * t))"

definition glsl_mod :: "real \<Rightarrow> real \<Rightarrow> real" where
  "glsl_mod x y = x - y * of_int \<lfloor>x / y\<rfloor>"

definition glsl_atan :: "real \<Rightarrow> real \<Rightarrow> real" where
  "glsl_atan y x =
     (if 0 < x then arctan (y / x)
      else if x < 0 then (if 0 \<le> y then arctan (y / x) + pi else arctan (y / x) - pi)
      else if 0 < y then pi / 2 else - (pi / 2))"

definition uSliceStart :: real where "uSliceStart = 1.75"
definition uSliceArc :: real where "uSliceArc = 1.25"

datatype fragment = Discard | FragColor real real real real

text \<open>The first three statements of \<^verbatim>\<open>main\<close>: the angle of the fragment, wrapped.\<close>

definition slice_angle :: "real \<Rightarrow> real \<Rightarrow> real \<Rightarrow> real" where
  "slice_angle sliceStart x y = glsl_mod (glsl_atan y x - sliceStart) (2 * pi)"

text \<open>The rest of \<^verbatim>\<open>main\<close>, from the wrapped angle on.\<close>

definition slice_shade :: "real \<Rightarrow> real \<Rightarrow> real \<Rightarrow> fragment" where
  "slice_shade sliceArc angularVelocity angle =
     (let motionEpsilon = 0.020 + (angularVelocity * 0.025);
          motionEdgeWidth = 0.015 + (angularVelocity * 0.020);
          alphaLow = smoothstep motionEpsilon (motionEpsilon + motionEdgeWidth) angle;
          alphaHigh = smoothstep (sliceArc - motionEdgeWidth) sliceArc angle;
          alphaLow' = alphaLow * alphaLow * (3.0 - 2.0 * alphaLow);
          alphaHigh' = alphaHigh * alphaHigh * (3.0 - 2.0 * alphaHigh);
          alpha = 1.0 - (alphaLow' * (1.0 - alphaHigh'))
      in if alpha < 0.01 then Discard else FragColor 1.0 1.0 1.0 alpha)"

definition slice_main :: "real \<Rightarrow> real \<Rightarrow> real \<Rightarrow> real \<times> real \<Rightarrow> fragment" where
  "slice_main sliceStart sliceArc angularVelocity vPosition =
     slice_shade sliceArc angularVelocity (slice_angle sliceStart (fst vPosition) (snd vPosition))"

text \<open>The alpha of a fragment in the words of the spec.\<close>

definition spec_f :: "real \<Rightarrow> real" where
  "spec_f x = x * x * (3 - 2 * x)"

definition spec_alpha :: "real \<Rightarrow> real \<Rightarrow> real \<Rightarrow> real" where
  "spec_alpha sliceArc v a =
     (let epsilon = 0.020 + 0.025 * v;
          edgeWidth = 0.015 + 0.020 * v;
          alphaLow = spec_f (smoothstep epsilon (epsilon + edgeWidth) a);
          alphaHigh = spec_f (smoothstep (sliceArc - edgeWidth) sliceArc a)
      in 1 - alphaLow * (1 - alphaHigh))"

subsection \<open>Invariants\<close>

text \<open>The blur values stay in range: the smoothed velocity is not negative, the uniform is in \<open>[0, 1]\<close>.\<close>

definition blur_ok :: "state \<Rightarrow> bool" where
  "blur_ok s = (0 \<le> smoothedVelocity s \<and> 0 \<le> uAngularVelocity s \<and> uAngularVelocity s \<le> 1)"

text \<open>
  The speed multiplier is in \<open>[0, 1]\<close>, it is zero while auto-rotation is off, auto-rotation
  is off during an interaction, and the transition did not start after time \<open>t\<close>.
\<close>

definition speed_ok :: "real \<Rightarrow> state \<Rightarrow> bool" where
  "speed_ok t s =
     (0 \<le> rotationSpeedMultiplier s \<and> rotationSpeedMultiplier s \<le> 1 \<and>
      (\<not> autoRotate s \<longrightarrow> rotationSpeedMultiplier s = 0) \<and>
      (userInteracting s \<longrightarrow> \<not> autoRotate s) \<and>
      transitionStartTime s \<le> t)"

text \<open>The only resume timer that can be pending is the one \<^verbatim>\<open>resumeTimeout\<close> names.\<close>

definition resume_ok :: "state \<Rightarrow> bool" where
  "resume_ok s =
     (\<forall>x \<in> set (timers s). fst (snd x) = ResumeTimer \<longrightarrow> resumeTimeout s = Some (fst x))"

text \<open>
  The only pause timer that can be pending is the one \<^verbatim>\<open>pauseTimeout\<close> names, and its
  id is truthy.
\<close>

definition pause_named :: "state \<Rightarrow> bool" where
  "pause_named s =
     (0 < nextTimerId s \<and>
      (\<forall>x \<in> set (timers s).
         fst (snd x) = PauseTimer \<longrightarrow> pauseTimeout s = Some (fst x) \<and> 0 < fst x))"

text \<open>
  While the manager sees the hero, the loop runs and no pause is pending; while the loop
  runs, so does the clock.
\<close>

definition pause_ok :: "state \<Rightarrow> bool" where
  "pause_ok s =
     (pause_named s \<and>
      (isVisible s \<longrightarrow> isRendering s \<and> \<not> pause_pending s) \<and>
      (isRendering s \<longrightarrow> running (clock s)))"

text \<open>Every pending pause timer is due at \<open>t\<close>.\<close>

definition pause_due :: "real \<Rightarrow> state \<Rightarrow> bool" where
  "pause_due t s = (\<forall>x \<in> set (timers s). fst (snd x) = PauseTimer \<longrightarrow> snd (snd x) = t)"

subsection \<open>Environments for examples\<close>

text \<open>The environment at time \<open>t\<close> (milliseconds), with a draw that returns or one that throws.\<close>

definition at_ms :: "real \<Rightarrow> env" where
  "at_ms t = \<lparr> now = t, renderThrows = False \<rparr>"

definition failing_at :: "real \<Rightarrow> env" where
  "failing_at t = \<lparr> now = t, renderThrows = True \<rparr>"

text \<open>
  A run that ends in the middle of a transition: the model arrives, the user drags once, the
  resume timer fires at 800 ms, one frame is drawn at 1384 ms.
\<close>

definition in_transition :: state where
  "in_transition =
     run [(at_ms 10, ModelLoaded 0), (at_ms 20, MouseDown 0), (at_ms 20, ControlsStart),
          (at_ms 100, ControlsEnd), (at_ms 800, Timeout 1), (at_ms 1384, AnimationFrame 1)]
       (boot (at_ms 0) Webflow)"

text \<open>A run that ends with the loop paused: the hero leaves the viewport and stays away.\<close>

definition paused :: state where
  "paused = run [(at_ms 1000, Intersection [False]), (at_ms 1500, Timeout 1)] (boot (at_ms 0) Webflow)"

text \<open>
  Five ticks, one second apart, on a model that is turned by hand so that the raw velocities
  are 0, 0, 1, 1, 1 (the auto-rotation adds 0.1 in each tick).
\<close>

definition scenario_D :: "(real \<times> env) list" where
  "scenario_D =
     [(- 0.1, at_ms 1000), (- 0.1, at_ms 2000), (0.9, at_ms 3000), (1.9, at_ms 4000),
      (2.9, at_ms 5000)]"

text \<open>An interaction that has started and has not ended: nothing is there to resume the rotation.\<close>

definition held :: "state \<Rightarrow> bool" where
  "held s =
     (userInteracting s \<and> \<not> autoRotate s \<and> rotationSpeedMultiplier s = 0 \<and>
      \<not> resume_pending s)"

text \<open>
  The hero is out of view and the pause is still to come: the loop and the clock run, the
  pause has been logged \<open>c\<close> times, and whatever pause timer is pending is due at \<open>t\<close>.
\<close>

definition waiting :: "real \<Rightarrow> nat \<Rightarrow> state \<Rightarrow> bool" where
  "waiting t c s =
     (pause_named s \<and> pause_due t s \<and> observer s \<and> isRendering s \<and> running (clock s) \<and>
      paused_count s = c)"

text \<open>
  A press as the browser delivers it. The controls listen to \<^verbatim>\<open>pointerdown\<close> and
  dispatch \<^verbatim>\<open>start\<close> from it; the script's own listeners are on \<^verbatim>\<open>mousedown\<close>
  and \<^verbatim>\<open>touchstart\<close>, which the browser sends after \<^verbatim>\<open>pointerdown\<close>. So the
  \<^verbatim>\<open>start\<close> of a press reaches the script before the press has set
  \<^verbatim>\<open>isMouseDown\<close> or \<^verbatim>\<open>isTouching\<close>.
\<close>

definition mouse_press :: "env \<Rightarrow> (env \<times> event) list" where
  "mouse_press e = [(e, ControlsStart), (e, MouseDown 0)]"

definition touch_press :: "env \<Rightarrow> (env \<times> event) list" where
  "touch_press e = [(e, ControlsStart), (e, TouchStart)]"

text \<open>
  A drag with two fingers, in that order of delivery: the second finger comes down while the
  first one has set \<^verbatim>\<open>isTouching\<close>, one finger is lifted at 90 ms, the other at 100 ms,
  where the controls dispatch \<^verbatim>\<open>end\<close>. The run ends with nothing touching the canvas
  and the resume timer 1 due at 800 ms.
\<close>

definition released :: state where
  "released =
     run ([(at_ms 10, ModelLoaded 0)] @ touch_press (at_ms 20) @ touch_press (at_ms 40)
          @ [(at_ms 90, TouchEnd), (at_ms 100, ControlsEnd), (at_ms 100, TouchEnd)])
       (boot (at_ms 0) Webflow)"

section \<open>Properties\<close>

subsection \<open>What each function changes\<close>


lemmas cfg = rotationSettings_def motionSettings_def AUTO_ROTATE_SPEED_def RESUME_DELAY_def TRANSITION_DURATION_def ENABLE_MOTION_BLUR_def PAUSE_DELAY_def velocitySmoothing_def

lemma settle_simps:
  "settle (Inr s) = s" "settle (Inl (err, s)) = emit (Uncaught err) s"
  by (simp_all add: settle_def)

lemma emit_effects: "effects (emit x s) = effects s @ [x]"
  by (simp add: emit_def)

lemma emit_frame:
  "isVisible (emit x s) = isVisible s"
  "pauseTimeout (emit x s) = pauseTimeout s"
  "observer (emit x s) = observer s"
  "uAngularVelocity (emit x s) = uAngularVelocity s"
  "model (emit x s) = model s"
  "autoRotate (emit x s) = autoRotate s"
  "userInteracting (emit x s) = userInteracting s"
  "resumeTimeout (emit x s) = resumeTimeout s"
  "rotationSpeedMultiplier (emit x s) = rotationSpeedMultiplier s"
  "transitionStartTime (emit x s) = transitionStartTime s"
  "isMouseDown (emit x s) = isMouseDown s"
  "isTouching (emit x s) = isTouching s"
  "previousRotation (emit x s) = previousRotation s"
  "smoothedVelocity (emit x s) = smoothedVelocity s"
  "clock (emit x s) = clock s"
  "isRendering (emit x s) = isRendering s"
  "animationFrameId (emit x s) = animationFrameId s"
  "timers (emit x s) = timers s"
  "nextTimerId (emit x s) = nextTimerId s"
  "frames (emit x s) = frames s"
  "nextFrameId (emit x s) = nextFrameId s"
  "lastDelta (emit x s) = lastDelta s"
  by (simp_all add: emit_def)

lemma motion_blur_frame:
  "isVisible (motion_blur d y s) = isVisible s"
  "pauseTimeout (motion_blur d y s) = pauseTimeout s"
  "observer (motion_blur d y s) = observer s"
  "model (motion_blur d y s) = model s"
  "autoRotate (motion_blur d y s) = autoRotate s"
  "userInteracting (motion_blur d y s) = userInteracting s"
  "resumeTimeout (motion_blur d y s) = resumeTimeout s"
  "rotationSpeedMultiplier (motion_blur d y s) = rotationSpeedMultiplier s"
  "transitionStartTime (motion_blur d y s) = transitionStartTime s"
  "isMouseDown (motion_blur d y s) = isMouseDown s"
  "isTouching (motion_blur d y s) = isTouching s"
  "clock (motion_blur d y s) = clock s"
  "isRendering (motion_blur d y s) = isRendering s"
  "animationFrameId (motion_blur d y s) = animationFrameId s"
  "timers (motion_blur d y s) = timers s"
  "nextTimerId (motion_blur d y s) = nextTimerId s"
  "frames (motion_blur d y s) = frames s"
  "nextFrameId (motion_blur d y s) = nextFrameId s"
  "effects (motion_blur d y s) = effects s"
  "lastDelta (motion_blur d y s) = lastDelta s"
  by (simp_all add: motion_blur_def Let_def)

lemma rotation_transition_frame:
  "isVisible (rotation_transition t s) = isVisible s"
  "pauseTimeout (rotation_transition t s) = pauseTimeout s"
  "observer (rotation_transition t s) = observer s"
  "uAngularVelocity (rotation_transition t s) = uAngularVelocity s"
  "model (rotation_transition t s) = model s"
  "autoRotate (rotation_transition t s) = autoRotate s"
  "userInteracting (rotation_transition t s) = userInteracting s"
  "resumeTimeout (rotation_transition t s) = resumeTimeout s"
  "transitionStartTime (rotation_transition t s) = transitionStartTime s"
  "isMouseDown (rotation_transition t s) = isMouseDown s"
  "isTouching (rotation_transition t s) = isTouching s"
  "previousRotation (rotation_transition t s) = previousRotation s"
  "smoothedVelocity (rotation_transition t s) = smoothedVelocity s"
  "clock (rotation_transition t s) = clock s"
  "isRendering (rotation_transition t s) = isRendering s"
  "animationFrameId (rotation_transition t s) = animationFrameId s"
  "timers (rotation_transition t s) = timers s"
  "nextTimerId (rotation_transition t s) = nextTimerId s"
  "frames (rotation_transition t s) = frames s"
  "nextFrameId (rotation_transition t s) = nextFrameId s"
  "effects (rotation_transition t s) = effects s"
  "lastDelta (rotation_transition t s) = lastDelta s"
  by (simp_all add: rotation_transition_def Let_def)

lemma update_model_frame:
  "isVisible (update_model t d y s) = isVisible s"
  "pauseTimeout (update_model t d y s) = pauseTimeout s"
  "observer (update_model t d y s) = observer s"
  "autoRotate (update_model t d y s) = autoRotate s"
  "userInteracting (update_model t d y s) = userInteracting s"
  "resumeTimeout (update_model t d y s) = resumeTimeout s"
  "transitionStartTime (update_model t d y s) = transitionStartTime s"
  "isMouseDown (update_model t d y s) = isMouseDown s"
  "isTouching (update_model t d y s) = isTouching s"
  "clock (update_model t d y s) = clock s"
  "isRendering (update_model t d y s) = isRendering s"
  "animationFrameId (update_model t d y s) = animationFrameId s"
  "timers (update_model t d y s) = timers s"
  "nextTimerId (update_model t d y s) = nextTimerId s"
  "frames (update_model t d y s) = frames s"
  "nextFrameId (update_model t d y s) = nextFrameId s"
  "effects (update_model t d y s) = effects s"
  "lastDelta (update_model t d y s) = lastDelta s"
  by (simp_all add: update_model_def Let_def motion_blur_frame rotation_transition_frame)

lemma tick_frame:
  "isVisible (settle (tick e s)) = isVisible s"
  "pauseTimeout (settle (tick e s)) = pauseTimeout s"
  "observer (settle (tick e s)) = observer s"
  "autoRotate (settle (tick e s)) = autoRotate s"
  "userInteracting (settle (tick e s)) = userInteracting s"
  "resumeTimeout (settle (tick e s)) = resumeTimeout s"
  "transitionStartTime (settle (tick e s)) = transitionStartTime s"
  "isMouseDown (settle (tick e s)) = isMouseDown s"
  "isTouching (settle (tick e s)) = isTouching s"
  "isRendering (settle (tick e s)) = isRendering s"
  "timers (settle (tick e s)) = timers s"
  "nextTimerId (settle (tick e s)) = nextTimerId s"
  by (simp_all add: tick_def settle_simps emit_frame requestAnimationFrame_def update_model_frame Let_def split: prod.splits option.splits)


lemma rotation_transition_multiplier:
  "rotationSpeedMultiplier (rotation_transition t s) =
     (if autoRotate s \<and> rotationSpeedMultiplier s < 1
      then easePower2Out (min ((t - transitionStartTime s) / 1200) 1)
      else rotationSpeedMultiplier s)"
  by (simp add: rotation_transition_def cfg Let_def)

lemma auto_rotate_eq:
  "auto_rotate d y s =
     (if autoRotate s \<and> \<not> userInteracting s then y + 0.1 * rotationSpeedMultiplier s * d else y)"
  by (simp add: auto_rotate_def cfg Let_def)

lemma motion_blur_values:
  "smoothedVelocity (motion_blur d y s) =
     0.9 * smoothedVelocity s + 0.1 * (\<bar>y - previousRotation s\<bar> / max d (1 / 1000))"
  "previousRotation (motion_blur d y s) = y"
  by (simp_all add: motion_blur_def cfg Let_def max.commute)

lemma if_uniform:
  "(if c then s\<lparr>uAngularVelocity := n\<rparr> else s) =
     s\<lparr>uAngularVelocity := (if c then n else uAngularVelocity s)\<rparr>"
  by simp

lemma motion_blur_uniform:
  "uAngularVelocity (motion_blur d y s) =
     (let n = min (smoothedVelocity (motion_blur d y s) * intensity motionSettings) 1
      in if \<bar>uAngularVelocity s - n\<bar> > 0.01 then n else uAngularVelocity s)"
  unfolding motion_blur_def Let_def if_uniform
  by (simp split del: if_split cong: if_cong)

lemma motion_blur_bounds:
  assumes "0 \<le> smoothedVelocity s" "0 \<le> uAngularVelocity s" "uAngularVelocity s \<le> 1"
  shows "0 \<le> smoothedVelocity (motion_blur d y s)"
    and "0 \<le> uAngularVelocity (motion_blur d y s)"
    and "uAngularVelocity (motion_blur d y s) \<le> 1"
proof -
  define raw where "raw = \<bar>y - previousRotation s\<bar> / max d (1 / 1000)"
  define sv where "sv = smoothedVelocity (motion_blur d y s)"
  define n where "n = min (sv * intensity motionSettings) 1"
  have "0 < max d (1 / 1000)" by simp
  then have raw: "0 \<le> raw" unfolding raw_def by (intro divide_nonneg_pos) simp_all
  have sv_eq: "sv = 0.9 * smoothedVelocity s + 0.1 * raw"
    unfolding sv_def raw_def by (rule motion_blur_values(1))
  from raw assms(1) have sv: "0 \<le> sv" unfolding sv_eq by simp
  then have n: "0 \<le> n" "n \<le> 1" unfolding n_def by (simp_all add: motionSettings_def)
  have u: "uAngularVelocity (motion_blur d y s) =
             (if \<bar>uAngularVelocity s - n\<bar> > 0.01 then n else uAngularVelocity s)"
    unfolding n_def sv_def using motion_blur_uniform [of d y s] by (simp only: Let_def)
  show "0 \<le> smoothedVelocity (motion_blur d y s)" using sv by (simp add: sv_def)
  show "0 \<le> uAngularVelocity (motion_blur d y s)"
    unfolding u using n(1) assms(2) by (cases "\<bar>uAngularVelocity s - n\<bar> > 0.01") simp_all
  show "uAngularVelocity (motion_blur d y s) \<le> 1"
    unfolding u using n(2) assms(3) by (cases "\<bar>uAngularVelocity s - n\<bar> > 0.01") simp_all
qed

lemma update_model_values:
  "rotationSpeedMultiplier (update_model t d y s) =
     (if autoRotate s \<and> rotationSpeedMultiplier s < 1
      then easePower2Out (min ((t - transitionStartTime s) / 1200) 1)
      else rotationSpeedMultiplier s)"
  "model (update_model t d y s) =
     Some (if autoRotate s \<and> \<not> userInteracting s
           then y + 0.1 * rotationSpeedMultiplier (update_model t d y s) * d else y)"
  "smoothedVelocity (update_model t d y s) =
     0.9 * smoothedVelocity s
     + 0.1 * (\<bar>the (model (update_model t d y s)) - previousRotation s\<bar> / max d (1 / 1000))"
  "previousRotation (update_model t d y s) = the (model (update_model t d y s))"
  by (simp_all add: update_model_def cfg Let_def motion_blur_values motion_blur_frame
      rotation_transition_frame rotation_transition_multiplier auto_rotate_eq)

lemma update_model_bounds:
  assumes "0 \<le> smoothedVelocity s" "0 \<le> uAngularVelocity s" "uAngularVelocity s \<le> 1"
  shows "0 \<le> smoothedVelocity (update_model t d y s)"
    and "0 \<le> uAngularVelocity (update_model t d y s)"
    and "uAngularVelocity (update_model t d y s) \<le> 1"
  using assms
  by (simp_all add: update_model_def cfg Let_def motion_blur_bounds rotation_transition_frame)

text \<open>The state a tick leaves, whether its draw returned or threw.\<close>

lemma tick_running:
  "isRendering s \<Longrightarrow>
   lastDelta (settle (tick e s)) = fst (clock_getDelta (now e) (clock s)) \<and>
   clock (settle (tick e s)) = snd (clock_getDelta (now e) (clock s))"
  by (simp add: tick_def settle_simps emit_frame requestAnimationFrame_def update_model_frame
      Let_def split: prod.splits option.splits)

lemma tick_no_model:
  "model s = None \<Longrightarrow>
   model (settle (tick e s)) = None \<and>
   rotationSpeedMultiplier (settle (tick e s)) = rotationSpeedMultiplier s \<and>
   smoothedVelocity (settle (tick e s)) = smoothedVelocity s \<and>
   previousRotation (settle (tick e s)) = previousRotation s \<and>
   uAngularVelocity (settle (tick e s)) = uAngularVelocity s"
  by (simp add: tick_def settle_simps emit_frame requestAnimationFrame_def
      Let_def split: prod.splits)

lemma tick_with_model:
  assumes "isRendering s" "model s = Some y"
  shows
    "rotationSpeedMultiplier (settle (tick e s)) =
       (if autoRotate s \<and> rotationSpeedMultiplier s < 1
        then easePower2Out (min ((now e - transitionStartTime s) / 1200) 1)
        else rotationSpeedMultiplier s)"
    "model (settle (tick e s)) =
       Some (if autoRotate s \<and> \<not> userInteracting s
             then y + 0.1 * rotationSpeedMultiplier (settle (tick e s)) * lastDelta (settle (tick e s))
             else y)"
    "smoothedVelocity (settle (tick e s)) =
       0.9 * smoothedVelocity s
       + 0.1 * (\<bar>the (model (settle (tick e s))) - previousRotation s\<bar>
                / max (lastDelta (settle (tick e s))) (1 / 1000))"
    "previousRotation (settle (tick e s)) = the (model (settle (tick e s)))"
  using assms
  by (simp_all add: tick_def settle_simps emit_frame requestAnimationFrame_def update_model_frame
      update_model_values Let_def split: prod.splits)

lemma tick_bounds:
  assumes "0 \<le> smoothedVelocity s" "0 \<le> uAngularVelocity s" "uAngularVelocity s \<le> 1"
  shows "0 \<le> smoothedVelocity (settle (tick e s))"
    and "0 \<le> uAngularVelocity (settle (tick e s))"
    and "uAngularVelocity (settle (tick e s)) \<le> 1"
  using assms
  by (simp_all add: tick_def settle_simps emit_frame requestAnimationFrame_def update_model_frame
      update_model_bounds Let_def split: prod.splits option.splits)

lemma tick_effects:
  "effects (settle (tick e s)) =
     effects s @ (if \<not> isRendering s then []
                  else if renderThrows e then [ControlsUpdate, Uncaught RenderError]
                  else [ControlsUpdate, Render])"
  by (simp add: tick_def settle_simps emit_frame emit_effects requestAnimationFrame_def
      update_model_frame Let_def split: prod.splits option.splits)

lemma tick_frames:
  "frames (settle (tick e s)) =
     (if isRendering s \<and> \<not> renderThrows e then insert (nextFrameId s) (frames s) else frames s)"
  "animationFrameId (settle (tick e s)) =
     (if isRendering s \<and> \<not> renderThrows e then Some (nextFrameId s) else animationFrameId s)"
  "nextFrameId (settle (tick e s)) =
     (if isRendering s \<and> \<not> renderThrows e then Suc (nextFrameId s) else nextFrameId s)"
  by (simp_all add: tick_def settle_simps emit_frame emit_effects requestAnimationFrame_def
      update_model_frame Let_def split: prod.splits option.splits)

lemma tick_outcome:
  "isRendering s \<Longrightarrow> renderThrows e \<Longrightarrow> \<exists>s'. tick e s = Inl (RenderError, s')"
  "isRendering s \<Longrightarrow> \<not> renderThrows e \<Longrightarrow> \<exists>s'. tick e s = Inr s'"
  by (simp_all add: tick_def Let_def split: prod.splits)

subsection \<open>What the listeners change\<close>

lemma clearTimeout_frame:
  "isVisible (clearTimeout h s) = isVisible s"
  "pauseTimeout (clearTimeout h s) = pauseTimeout s"
  "observer (clearTimeout h s) = observer s"
  "uAngularVelocity (clearTimeout h s) = uAngularVelocity s"
  "model (clearTimeout h s) = model s"
  "autoRotate (clearTimeout h s) = autoRotate s"
  "userInteracting (clearTimeout h s) = userInteracting s"
  "resumeTimeout (clearTimeout h s) = resumeTimeout s"
  "rotationSpeedMultiplier (clearTimeout h s) = rotationSpeedMultiplier s"
  "transitionStartTime (clearTimeout h s) = transitionStartTime s"
  "isMouseDown (clearTimeout h s) = isMouseDown s"
  "isTouching (clearTimeout h s) = isTouching s"
  "previousRotation (clearTimeout h s) = previousRotation s"
  "smoothedVelocity (clearTimeout h s) = smoothedVelocity s"
  "clock (clearTimeout h s) = clock s"
  "isRendering (clearTimeout h s) = isRendering s"
  "animationFrameId (clearTimeout h s) = animationFrameId s"
  "nextTimerId (clearTimeout h s) = nextTimerId s"
  "frames (clearTimeout h s) = frames s"
  "nextFrameId (clearTimeout h s) = nextFrameId s"
  "effects (clearTimeout h s) = effects s"
  "lastDelta (clearTimeout h s) = lastDelta s"
  by (simp_all add: clearTimeout_def split: option.splits)

lemma setTimeout_frame:
  "isVisible (snd (setTimeout k d t s)) = isVisible s"
  "pauseTimeout (snd (setTimeout k d t s)) = pauseTimeout s"
  "observer (snd (setTimeout k d t s)) = observer s"
  "uAngularVelocity (snd (setTimeout k d t s)) = uAngularVelocity s"
  "model (snd (setTimeout k d t s)) = model s"
  "autoRotate (snd (setTimeout k d t s)) = autoRotate s"
  "userInteracting (snd (setTimeout k d t s)) = userInteracting s"
  "resumeTimeout (snd (setTimeout k d t s)) = resumeTimeout s"
  "rotationSpeedMultiplier (snd (setTimeout k d t s)) = rotationSpeedMultiplier s"
  "transitionStartTime (snd (setTimeout k d t s)) = transitionStartTime s"
  "isMouseDown (snd (setTimeout k d t s)) = isMouseDown s"
  "isTouching (snd (setTimeout k d t s)) = isTouching s"
  "previousRotation (snd (setTimeout k d t s)) = previousRotation s"
  "smoothedVelocity (snd (setTimeout k d t s)) = smoothedVelocity s"
  "clock (snd (setTimeout k d t s)) = clock s"
  "isRendering (snd (setTimeout k d t s)) = isRendering s"
  "animationFrameId (snd (setTimeout k d t s)) = animationFrameId s"
  "frames (snd (setTimeout k d t s)) = frames s"
  "nextFrameId (snd (setTimeout k d t s)) = nextFrameId s"
  "effects (snd (setTimeout k d t s)) = effects s"
  "lastDelta (snd (setTimeout k d t s)) = lastDelta s"
  by (simp_all add: setTimeout_def)

lemma cancelAnimationFrame_frame:
  "isVisible (cancelAnimationFrame h s) = isVisible s"
  "pauseTimeout (cancelAnimationFrame h s) = pauseTimeout s"
  "observer (cancelAnimationFrame h s) = observer s"
  "uAngularVelocity (cancelAnimationFrame h s) = uAngularVelocity s"
  "model (cancelAnimationFrame h s) = model s"
  "autoRotate (cancelAnimationFrame h s) = autoRotate s"
  "userInteracting (cancelAnimationFrame h s) = userInteracting s"
  "resumeTimeout (cancelAnimationFrame h s) = resumeTimeout s"
  "rotationSpeedMultiplier (cancelAnimationFrame h s) = rotationSpeedMultiplier s"
  "transitionStartTime (cancelAnimationFrame h s) = transitionStartTime s"
  "isMouseDown (cancelAnimationFrame h s) = isMouseDown s"
  "isTouching (cancelAnimationFrame h s) = isTouching s"
  "previousRotation (cancelAnimationFrame h s) = previousRotation s"
  "smoothedVelocity (cancelAnimationFrame h s) = smoothedVelocity s"
  "clock (cancelAnimationFrame h s) = clock s"
  "isRendering (cancelAnimationFrame h s) = isRendering s"
  "animationFrameId (cancelAnimationFrame h s) = animationFrameId s"
  "timers (cancelAnimationFrame h s) = timers s"
  "nextTimerId (cancelAnimationFrame h s) = nextTimerId s"
  "nextFrameId (cancelAnimationFrame h s) = nextFrameId s"
  "effects (cancelAnimationFrame h s) = effects s"
  "lastDelta (cancelAnimationFrame h s) = lastDelta s"
  by (simp_all add: cancelAnimationFrame_def split: option.splits)

lemma resumeRotation_frame:
  "isVisible (resumeRotation e s) = isVisible s"
  "pauseTimeout (resumeRotation e s) = pauseTimeout s"
  "observer (resumeRotation e s) = observer s"
  "uAngularVelocity (resumeRotation e s) = uAngularVelocity s"
  "model (resumeRotation e s) = model s"
  "autoRotate (resumeRotation e s) = autoRotate s"
  "rotationSpeedMultiplier (resumeRotation e s) = rotationSpeedMultiplier s"
  "transitionStartTime (resumeRotation e s) = transitionStartTime s"
  "isMouseDown (resumeRotation e s) = isMouseDown s"
  "isTouching (resumeRotation e s) = isTouching s"
  "previousRotation (resumeRotation e s) = previousRotation s"
  "smoothedVelocity (resumeRotation e s) = smoothedVelocity s"
  "clock (resumeRotation e s) = clock s"
  "isRendering (resumeRotation e s) = isRendering s"
  "animationFrameId (resumeRotation e s) = animationFrameId s"
  "frames (resumeRotation e s) = frames s"
  "nextFrameId (resumeRotation e s) = nextFrameId s"
  "effects (resumeRotation e s) = effects s"
  "lastDelta (resumeRotation e s) = lastDelta s"
  by (simp_all add: resumeRotation_def cfg Let_def clearTimeout_def setTimeout_def split: option.splits)

lemma resume_callback_frame:
  "isVisible (resume_callback e s) = isVisible s"
  "pauseTimeout (resume_callback e s) = pauseTimeout s"
  "observer (resume_callback e s) = observer s"
  "uAngularVelocity (resume_callback e s) = uAngularVelocity s"
  "model (resume_callback e s) = model s"
  "userInteracting (resume_callback e s) = userInteracting s"
  "resumeTimeout (resume_callback e s) = resumeTimeout s"
  "isMouseDown (resume_callback e s) = isMouseDown s"
  "isTouching (resume_callback e s) = isTouching s"
  "previousRotation (resume_callback e s) = previousRotation s"
  "smoothedVelocity (resume_callback e s) = smoothedVelocity s"
  "clock (resume_callback e s) = clock s"
  "isRendering (resume_callback e s) = isRendering s"
  "animationFrameId (resume_callback e s) = animationFrameId s"
  "timers (resume_callback e s) = timers s"
  "nextTimerId (resume_callback e s) = nextTimerId s"
  "frames (resume_callback e s) = frames s"
  "nextFrameId (resume_callback e s) = nextFrameId s"
  "effects (resume_callback e s) = effects s"
  "lastDelta (resume_callback e s) = lastDelta s"
  by (simp_all add: resume_callback_def cfg Let_def)

lemma controls_start_frame:
  "isVisible (controls_start s) = isVisible s"
  "pauseTimeout (controls_start s) = pauseTimeout s"
  "observer (controls_start s) = observer s"
  "uAngularVelocity (controls_start s) = uAngularVelocity s"
  "model (controls_start s) = model s"
  "resumeTimeout (controls_start s) = resumeTimeout s"
  "transitionStartTime (controls_start s) = transitionStartTime s"
  "isMouseDown (controls_start s) = isMouseDown s"
  "isTouching (controls_start s) = isTouching s"
  "previousRotation (controls_start s) = previousRotation s"
  "smoothedVelocity (controls_start s) = smoothedVelocity s"
  "clock (controls_start s) = clock s"
  "isRendering (controls_start s) = isRendering s"
  "animationFrameId (controls_start s) = animationFrameId s"
  "nextTimerId (controls_start s) = nextTimerId s"
  "frames (controls_start s) = frames s"
  "nextFrameId (controls_start s) = nextFrameId s"
  "effects (controls_start s) = effects s"
  "lastDelta (controls_start s) = lastDelta s"
  by (simp_all add: controls_start_def cfg Let_def clearTimeout_def split: option.splits)

lemma handleVisibilityChange_frame:
  "isVisible (settle (handleVisibilityChange e v s)) = isVisible s"
  "pauseTimeout (settle (handleVisibilityChange e v s)) = pauseTimeout s"
  "observer (settle (handleVisibilityChange e v s)) = observer s"
  "autoRotate (settle (handleVisibilityChange e v s)) = autoRotate s"
  "userInteracting (settle (handleVisibilityChange e v s)) = userInteracting s"
  "resumeTimeout (settle (handleVisibilityChange e v s)) = resumeTimeout s"
  "transitionStartTime (settle (handleVisibilityChange e v s)) = transitionStartTime s"
  "isMouseDown (settle (handleVisibilityChange e v s)) = isMouseDown s"
  "isTouching (settle (handleVisibilityChange e v s)) = isTouching s"
  "timers (settle (handleVisibilityChange e v s)) = timers s"
  "nextTimerId (settle (handleVisibilityChange e v s)) = nextTimerId s"
  by (simp_all add: handleVisibilityChange_def Let_def tick_frame settle_simps emit_frame cancelAnimationFrame_frame)

lemma observer_entry_frame:
  "observer (settle (observer_entry e x s)) = observer s"
  "autoRotate (settle (observer_entry e x s)) = autoRotate s"
  "userInteracting (settle (observer_entry e x s)) = userInteracting s"
  "resumeTimeout (settle (observer_entry e x s)) = resumeTimeout s"
  "transitionStartTime (settle (observer_entry e x s)) = transitionStartTime s"
  "isMouseDown (settle (observer_entry e x s)) = isMouseDown s"
  "isTouching (settle (observer_entry e x s)) = isTouching s"
  by (simp_all add: observer_entry_def Let_def handleVisibilityChange_frame settle_simps emit_frame clearTimeout_frame setTimeout_def split: prod.splits)


text \<open>A property that every entry of the observer's callback preserves holds after the callback.\<close>

lemma observer_callback_preserves:
  assumes "\<And>x s. P s \<Longrightarrow> P (settle (observer_entry e x s))" and "P s"
  shows "P (settle (observer_callback e xs s))"
  using assms(2)
proof (induction xs arbitrary: s)
  case Nil
  then show ?case by (simp add: settle_simps)
next
  case (Cons x xs)
  from assms(1) [OF Cons.prems] have step: "P (settle (observer_entry e x s))" .
  show ?case
  proof (cases "observer_entry e x s")
    case (Inl err)
    with step show ?thesis by simp
  next
    case (Inr s')
    with step have "P s'" by (simp add: settle_simps)
    from Cons.IH [OF this] Inr show ?thesis by simp
  qed
qed

text \<open>A property that every step preserves holds along every run.\<close>

lemma run_preserves:
  assumes "\<And>e ev s. P s \<Longrightarrow> P (step e ev s)" and "P s"
  shows "P (run es s)"
  using assms(2)
proof (induction es arbitrary: s)
  case Nil
  then show ?case by simp
next
  case (Cons x es)
  obtain e ev where x: "x = (e, ev)" by (cases x)
  from Cons.IH [OF assms(1) [OF Cons.prems]] show ?case by (simp add: x)
qed

subsection \<open>A tick before the model is ready\<close>



subsection \<open>The rotation advance of a tick\<close>

text \<open>
  C4. In a tick (of a running loop, with the model loaded; its delta may be any number, so
  in particular any delta that is not negative) the model's angle grows by exactly
  speed \<open>\<cdot>\<close> multiplier \<open>\<cdot>\<close> delta when the state is AutoRotating or Transitioning, and
  stays as it is when the state is Interacting or ResumeScheduled. While Transitioning the
  multiplier the tick uses is \<open>ease (min (elapsed / transitionDuration) 1)\<close> with
  \<open>ease t = t (2 - t)\<close> and the elapsed time taken from the recorded transition start; while
  AutoRotating the multiplier is left alone. The delta is what the clock returns.
\<close>

theorem rotation_advance:
  assumes "isRendering s" and "model s = Some y"
  shows "(rotation_state_of s = AutoRotating \<or> rotation_state_of s = Transitioning \<longrightarrow>
            model (settle (tick e s)) =
              Some (y + speed rotationSettings * rotationSpeedMultiplier (settle (tick e s))
                        * lastDelta (settle (tick e s)))) \<and>
         (rotation_state_of s = Interacting \<or> rotation_state_of s = ResumeScheduled \<longrightarrow>
            model (settle (tick e s)) = Some y) \<and>
         (rotation_state_of s = Transitioning \<longrightarrow>
            rotationSpeedMultiplier (settle (tick e s)) =
              easePower2Out (min ((now e - transitionStartTime s)
                                  / transitionDuration rotationSettings) 1)) \<and>
         (rotation_state_of s = AutoRotating \<longrightarrow>
            rotationSpeedMultiplier (settle (tick e s)) = rotationSpeedMultiplier s) \<and>
         (\<forall>t. easePower2Out t = t * (2 - t)) \<and>
         lastDelta (settle (tick e s)) = fst (clock_getDelta (now e) (clock s))"
proof -
  note m = tick_with_model(1) [OF assms, of e]
  note y = tick_with_model(2) [OF assms, of e]
  have 1: "rotation_state_of s = AutoRotating \<or> rotation_state_of s = Transitioning \<longrightarrow>
            model (settle (tick e s)) =
              Some (y + speed rotationSettings * rotationSpeedMultiplier (settle (tick e s))
                        * lastDelta (settle (tick e s)))"
    using y by (simp add: rotation_state_of_def cfg split: if_splits)
  have 2: "rotation_state_of s = Interacting \<or> rotation_state_of s = ResumeScheduled \<longrightarrow>
            model (settle (tick e s)) = Some y"
    using y by (simp add: rotation_state_of_def split: if_splits)
  have 3: "rotation_state_of s = Transitioning \<longrightarrow>
            rotationSpeedMultiplier (settle (tick e s)) =
              easePower2Out (min ((now e - transitionStartTime s)
                                  / transitionDuration rotationSettings) 1)"
    using m by (simp add: rotation_state_of_def cfg split: if_splits)
  have 4: "rotation_state_of s = AutoRotating \<longrightarrow>
            rotationSpeedMultiplier (settle (tick e s)) = rotationSpeedMultiplier s"
    using m by (simp add: rotation_state_of_def split: if_splits)
  have 5: "\<forall>t. easePower2Out t = t * (2 - t)" by (simp add: easePower2Out_def)
  have 6: "lastDelta (settle (tick e s)) = fst (clock_getDelta (now e) (clock s))"
    using tick_running [OF assms(1), of e] by simp
  from 1 2 3 4 5 6 show ?thesis by blast
qed
theorem rotation_advance_witness:
  "isRendering in_transition \<and> model in_transition = Some (2866783 / 28125000) \<and>
   rotation_state_of in_transition = Transitioning \<and>
   transitionStartTime in_transition = 800 \<and>
   rotationSpeedMultiplier (settle (tick (at_ms 1400) in_transition)) = 3 / 4 \<and>
   lastDelta (settle (tick (at_ms 1400) in_transition)) = 2 / 125 \<and>
   model (settle (tick (at_ms 1400) in_transition)) =
     Some (2866783 / 28125000 + 0.1 * (3 / 4) * (2 / 125))"
proof -
  have r: "isRendering in_transition" by code_simp
  have y: "model in_transition = Some (2866783 / 28125000)" by code_simp
  have t: "rotation_state_of in_transition = Transitioning" by code_simp
  have b: "transitionStartTime in_transition = 800" by code_simp
  have d: "fst (clock_getDelta (now (at_ms 1400)) (clock in_transition)) = 2 / 125" by code_simp
  note adv = rotation_advance [OF r y, of "at_ms 1400"]
  from adv t b have m: "rotationSpeedMultiplier (settle (tick (at_ms 1400) in_transition)) = 3 / 4"
    by (simp add: at_ms_def cfg easePower2Out_def)
  from adv d have l: "lastDelta (settle (tick (at_ms 1400) in_transition)) = 2 / 125"
    by simp
  from adv t have M: "model (settle (tick (at_ms 1400) in_transition)) =
      Some (2866783 / 28125000 + speed rotationSettings
              * rotationSpeedMultiplier (settle (tick (at_ms 1400) in_transition))
              * lastDelta (settle (tick (at_ms 1400) in_transition)))"
    by blast
  have "model (settle (tick (at_ms 1400) in_transition)) =
      Some (2866783 / 28125000 + 0.1 * (3 / 4) * (2 / 125))"
    unfolding M m l by (simp add: cfg)
  with r y t b m l show ?thesis by blast
qed

subsection \<open>The smoothed velocity\<close>

lemma ticks_records_angle:
  assumes "isRendering s" and "xs \<noteq> []"
  shows "previousRotation (ticks xs s) = the (model (ticks xs s))"
  using assms
proof (induction xs arbitrary: s)
  case Nil
  then show ?case by simp
next
  case (Cons x xs)
  obtain a e where x: "x = (a, e)" by (cases x)
  let ?s0 = "s\<lparr>model := Some a\<rparr>"
  let ?s' = "settle (tick e ?s0)"
  have r0: "isRendering ?s0" using Cons.prems by simp
  have y0: "model ?s0 = Some a" by simp
  have r': "isRendering ?s'" using r0 by (simp add: tick_frame)
  show ?case
  proof (cases "xs = []")
    case True
    with tick_with_model(4) [OF r0 y0, of e] show ?thesis by (simp add: x)
  next
    case False
    from Cons.IH [OF r' False] show ?thesis by (simp add: x)
  qed
qed

text \<open>
  C7. Along any run of ticks of a running loop, on a model that may have been turned between
  the ticks, the smoothed velocities are the exponential moving average
  \<open>s\<^sub>n = 0.9 \<cdot> s\<^sub>n\<^sub>-\<^sub>1 + 0.1 \<cdot> raw\<^sub>n\<close>, started at the smoothed velocity the run
  starts with (0 in the initial state), of the raw velocities
  \<open>raw\<^sub>n = |angle\<^sub>n - angle\<^sub>n\<^sub>-\<^sub>1| / max (dt\<^sub>n, 0.001)\<close>, where \<open>angle\<^sub>n\<close> is the angle
  the \<open>n\<close>-th tick leaves, \<open>angle\<^sub>0\<close> is the angle recorded before the run (0 in the initial
  state) and \<open>dt\<^sub>n\<close> is the tick's delta; and every tick records the angle it leaves.
\<close>

theorem smoothing_recurrence:
  assumes "isRendering s"
  shows "smoothed_after xs s
           = ema (smoothedVelocity s) (raw_velocities (previousRotation s) xs s) \<and>
         (xs \<noteq> [] \<longrightarrow> previousRotation (ticks xs s) = the (model (ticks xs s)))"
proof -
  have "smoothed_after xs s
          = ema (smoothedVelocity s) (raw_velocities (previousRotation s) xs s)"
    using assms
  proof (induction xs arbitrary: s)
    case Nil
    show ?case by simp
  next
    case (Cons x xs)
    obtain a e where x: "x = (a, e)" by (cases x)
    let ?s0 = "s\<lparr>model := Some a\<rparr>"
    let ?s' = "settle (tick e ?s0)"
    have r0: "isRendering ?s0" using Cons.prems by simp
    have y0: "model ?s0 = Some a" by simp
    have sv: "smoothedVelocity ?s' =
        0.9 * smoothedVelocity s
        + 0.1 * (\<bar>the (model ?s') - previousRotation s\<bar> / max (lastDelta ?s') (1 / 1000))"
      using tick_with_model(3) [OF r0 y0, of e] by simp
    have pr: "previousRotation ?s' = the (model ?s')"
      using tick_with_model(4) [OF r0 y0, of e] by simp
    have r': "isRendering ?s'" using r0 by (simp add: tick_frame)
    from Cons.IH [OF r'] sv pr show ?case
      by (simp add: x Let_def)
  qed
  with ticks_records_angle [OF assms, of xs] show ?thesis by blast
qed

theorem smoothing_recurrence_witness:
  "isRendering (boot (at_ms 0) Webflow) \<and>
   smoothedVelocity (boot (at_ms 0) Webflow) = 0 \<and>
   previousRotation (boot (at_ms 0) Webflow) = 0 \<and>
   raw_velocities 0 scenario_D (boot (at_ms 0) Webflow) = [0, 0, 1, 1, 1] \<and>
   smoothed_after scenario_D (boot (at_ms 0) Webflow) = ema 0 [0, 0, 1, 1, 1] \<and>
   ema 0 [0, 0, 1, 1, 1] = [0, 0, 1 / 10, 19 / 100, 271 / 1000] \<and>
   previousRotation (ticks scenario_D (boot (at_ms 0) Webflow)) = 3"
proof -
  have r: "isRendering (boot (at_ms 0) Webflow)" by code_simp
  have z: "smoothedVelocity (boot (at_ms 0) Webflow) = 0" by code_simp
  have p: "previousRotation (boot (at_ms 0) Webflow) = 0" by code_simp
  have raw: "raw_velocities 0 scenario_D (boot (at_ms 0) Webflow) = [0, 0, 1, 1, 1]"
    by code_simp
  have v: "ema 0 [0, 0, 1, 1, 1] = [0, 0, 1 / 10, 19 / 100, 271 / 1000]" by code_simp
  have n: "scenario_D \<noteq> []" by (simp add: scenario_D_def)
  have a: "the (model (ticks scenario_D (boot (at_ms 0) Webflow))) = 3" by code_simp
  note th = smoothing_recurrence [OF r, of scenario_D]
  from th z p raw
  have 1: "smoothed_after scenario_D (boot (at_ms 0) Webflow) = ema 0 [0, 0, 1, 1, 1]"
    by simp
  from th n a have 2: "previousRotation (ticks scenario_D (boot (at_ms 0) Webflow)) = 3"
    by simp
  from r z p raw v 1 2 show ?thesis by blast
qed

subsection \<open>A draw that fails\<close>

text \<open>
  C3, as the script has it. When the draw of a tick throws, the tick ends there: it requests
  no further frame (so the loop has stopped, although \<^verbatim>\<open>isRendering\<close> stays true, and
  nothing retries the draw), and it dispatches no event and logs nothing: the exception leaves
  \<^verbatim>\<open>tick\<close> and reaches whoever called it. From a frame callback that is the browser,
  which reports it as uncaught.
\<close>

theorem draw_failure_propagates:
  assumes "isRendering s" and "renderThrows e"
  shows "(\<exists>s'. tick e s = Inl (RenderError, s') \<and>
               frames s' = frames s \<and> nextFrameId s' = nextFrameId s \<and>
               animationFrameId s' = animationFrameId s \<and> isRendering s' \<and>
               effects s' = effects s @ [ControlsUpdate]) \<and>
         (\<forall>i. i \<in> frames s \<longrightarrow>
               frames (step e (AnimationFrame i) s) = frames s - {i} \<and>
               effects (step e (AnimationFrame i) s) =
                 effects s @ [ControlsUpdate, Uncaught RenderError])"
proof -
  from tick_outcome(1) [OF assms] obtain s' where s': "tick e s = Inl (RenderError, s')"
    by blast
  have st: "settle (tick e s) = emit (Uncaught RenderError) s'"
    by (simp add: s' settle_simps)
  have "frames s' = frames s" "nextFrameId s' = nextFrameId s"
    "animationFrameId s' = animationFrameId s" "isRendering s'"
    using tick_frames [of e s] tick_frame(10) [of e s] assms by (simp_all add: st emit_frame)
  moreover have "effects s' = effects s @ [ControlsUpdate]"
    using tick_effects [of e s] assms by (simp add: st emit_effects)
  moreover have "\<forall>i. i \<in> frames s \<longrightarrow>
               frames (step e (AnimationFrame i) s) = frames s - {i} \<and>
               effects (step e (AnimationFrame i) s) =
                 effects s @ [ControlsUpdate, Uncaught RenderError]"
    using assms by (simp add: step_def tick_frames tick_effects)
  ultimately show ?thesis using s' by blast
qed

theorem draw_failure_propagates_witness:
  "isRendering (boot (at_ms 0) Webflow) \<and> renderThrows (failing_at 16) \<and>
   1 \<in> frames (boot (at_ms 0) Webflow) \<and>
   frames (step (failing_at 16) (AnimationFrame 1) (boot (at_ms 0) Webflow)) = {} \<and>
   effects (step (failing_at 16) (AnimationFrame 1) (boot (at_ms 0) Webflow)) =
     [ControlsUpdate, Render, ControlsUpdate, Uncaught RenderError]"
proof -
  have r: "isRendering (boot (at_ms 0) Webflow)" by code_simp
  have t: "renderThrows (failing_at 16)" by code_simp
  have f: "frames (boot (at_ms 0) Webflow) = {1}" by code_simp
  have x: "effects (boot (at_ms 0) Webflow) = [ControlsUpdate, Render]" by code_simp
  from draw_failure_propagates [OF r t] f x r t show ?thesis by simp
qed

text \<open>
  The claim as the spec states it (the failure comes out once, as an event, and is not
  thrown into the caller) fails on the first frame after start-up: \<^verbatim>\<open>tick\<close> ends with
  the exception and no event has been dispatched.
\<close>

theorem draw_failure_counterexample:
  "isl (tick (failing_at 16) (boot (at_ms 0) Webflow)) \<and>
   filter is_dispatch (effects (step (failing_at 16) (AnimationFrame 1) (boot (at_ms 0) Webflow))) = []"
  by code_simp

subsection \<open>The first delta after a restart\<close>

lemma clock_started_delta:
  "clock_getDelta t (clock_start t c) = (0, (clock_start t c)\<lparr>oldTime := t\<rparr>)"
  by (simp add: clock_getDelta_def clock_start_def)

lemma handleVisibilityChange_resume:
  "\<not> isRendering s \<Longrightarrow>
   settle (handleVisibilityChange e True s) =
     settle (tick e (emit (LogInfo ''Rendering resumed'')
                      (s\<lparr>isRendering := True, clock := clock_start (now e) (clock s)\<rparr>)))"
  by (simp add: handleVisibilityChange_def Let_def)

text \<open>
  C8. When the visibility controller restarts a stopped loop, the tick it runs computes the
  delta 0, whatever the clock held and however long the loop was stopped: the clock's
  baseline is moved to the present first. The tick after that one measures its delta from
  the restart.
\<close>

theorem first_delta_after_restart:
  assumes "\<not> isRendering s"
  shows "isRendering (settle (handleVisibilityChange e True s)) \<and>
         lastDelta (settle (handleVisibilityChange e True s)) = 0 \<and>
         oldTime (clock (settle (handleVisibilityChange e True s))) = now e \<and>
         (\<forall>e'. lastDelta (settle (tick e' (settle (handleVisibilityChange e True s))))
                = (now e' - now e) / 1000)"
proof -
  let ?s0 = "emit (LogInfo ''Rendering resumed'')
               (s\<lparr>isRendering := True, clock := clock_start (now e) (clock s)\<rparr>)"
  let ?s1 = "settle (handleVisibilityChange e True s)"
  have eq: "?s1 = settle (tick e ?s0)" by (rule handleVisibilityChange_resume [OF assms])
  have r0: "isRendering ?s0" by (simp add: emit_frame)
  have c0: "clock ?s0 = clock_start (now e) (clock s)" by (simp add: emit_frame)
  have r1: "isRendering ?s1" unfolding eq using r0 by (simp add: tick_frame)
  have d1: "lastDelta ?s1 = 0" unfolding eq
    using tick_running [OF r0, of e] by (simp add: c0 clock_started_delta)
  have c1: "clock ?s1 = (clock_start (now e) (clock s))\<lparr>oldTime := now e\<rparr>" unfolding eq
    using tick_running [OF r0, of e] by (simp add: c0 clock_started_delta)
  have "lastDelta (settle (tick e' ?s1)) = (now e' - now e) / 1000" for e'
    using tick_running [OF r1, of e']
    by (simp add: c1 clock_getDelta_def clock_start_def Let_def)
  with r1 d1 c1 show ?thesis by simp
qed

theorem first_delta_after_restart_witness:
  "\<not> isRendering paused \<and>
   oldTime (clock paused) = 1500 \<and>
   isRendering (settle (handleVisibilityChange (at_ms 1000000) True paused)) \<and>
   lastDelta (settle (handleVisibilityChange (at_ms 1000000) True paused)) = 0 \<and>
   lastDelta (settle (tick (at_ms 1000016)
                 (settle (handleVisibilityChange (at_ms 1000000) True paused)))) = 2 / 125"
proof -
  have p: "\<not> isRendering paused" by code_simp
  have o: "oldTime (clock paused) = 1500" by code_simp
  note th = first_delta_after_restart [OF p, of "at_ms 1000000"]
  from th have r: "isRendering (settle (handleVisibilityChange (at_ms 1000000) True paused))"
    and d: "lastDelta (settle (handleVisibilityChange (at_ms 1000000) True paused)) = 0"
    by blast+
  from th have "lastDelta (settle (tick (at_ms 1000016)
                 (settle (handleVisibilityChange (at_ms 1000000) True paused))))
      = (now (at_ms 1000016) - now (at_ms 1000000)) / 1000"
    by blast
  also have "\<dots> = 2 / 125" by (simp add: at_ms_def)
  finally show ?thesis using p o r d by blast
qed

subsection \<open>The fragment shader\<close>

text \<open>
  C9. For a fragment with wrapped angle \<open>a\<close> and a uniform \<open>v\<close> in \<open>[0, 1]\<close>, both
  \<^verbatim>\<open>smoothstep\<close> calls have their edges in order, and the shader discards the fragment
  exactly when \<open>alpha < 0.01\<close> and otherwise writes white with that alpha, where alpha is
  \<open>1 - alphaLow (1 - alphaHigh)\<close>, \<open>alphaLow = f (smoothstep \<epsilon> (\<epsilon> + w) a)\<close>,
  \<open>alphaHigh = f (smoothstep (sliceArc - w) sliceArc a)\<close>, \<open>f x = x x (3 - 2 x)\<close>,
  \<open>\<epsilon> = 0.020 + 0.025 v\<close> and \<open>w = 0.015 + 0.020 v\<close>.
\<close>

theorem slice_shade_spec:
  assumes "0 \<le> v" and "v \<le> 1"
  shows "(0.020 + 0.025 * v < (0.020 + 0.025 * v) + (0.015 + 0.020 * v)) \<and>
         (sliceArc - (0.015 + 0.020 * v) < sliceArc) \<and>
         (slice_shade sliceArc v a = Discard \<longleftrightarrow> spec_alpha sliceArc v a < 0.01) \<and>
         (\<not> spec_alpha sliceArc v a < 0.01 \<longrightarrow>
            slice_shade sliceArc v a = FragColor 1 1 1 (spec_alpha sliceArc v a)) \<and>
         slice_main sliceStart sliceArc v p =
           slice_shade sliceArc v (slice_angle sliceStart (fst p) (snd p))"
  using assms
  by (simp add: slice_shade_def slice_main_def spec_alpha_def spec_f_def Let_def algebra_simps)

theorem slice_shade_spec_witness:
  "(0::real) \<le> 1 / 2 \<and> (1 / 2 :: real) \<le> 1 \<and>
   spec_alpha uSliceArc (1 / 2) (4 / 100) = 1719116 / 1953125 \<and>
   slice_shade uSliceArc (1 / 2) (4 / 100) = FragColor 1 1 1 (1719116 / 1953125) \<and>
   spec_alpha uSliceArc (1 / 2) (1 / 10) < 1 / 100 \<and>
   slice_shade uSliceArc (1 / 2) (1 / 10) = Discard"
proof -
  have a: "(0::real) \<le> 1 / 2" and b: "(1 / 2 :: real) \<le> 1" by simp_all
  have v: "spec_alpha uSliceArc (1 / 2) (4 / 100) = 1719116 / 1953125" by code_simp
  have w: "spec_alpha uSliceArc (1 / 2) (1 / 10) < 1 / 100" by code_simp
  from slice_shade_spec [OF a b, of uSliceArc "4 / 100"] v
  have 1: "slice_shade uSliceArc (1 / 2) (4 / 100) = FragColor 1 1 1 (1719116 / 1953125)"
    by simp
  from slice_shade_spec [OF a b, of uSliceArc "1 / 10"] w
  have 2: "slice_shade uSliceArc (1 / 2) (1 / 10) = Discard"
    by simp
  from a b v w 1 2 show ?thesis by blast
qed

subsection \<open>The blur values stay in range\<close>

lemma blur_ok_tick: "blur_ok s \<Longrightarrow> blur_ok (settle (tick e s))"
  unfolding blur_ok_def using tick_bounds [of s e] by blast

lemma blur_ok_handleVisibilityChange:
  assumes "blur_ok s"
  shows "blur_ok (settle (handleVisibilityChange e v s))"
proof (cases "v \<and> \<not> isRendering s")
  case True
  have "blur_ok (emit (LogInfo ''Rendering resumed'')
                  (s\<lparr>isRendering := True, clock := clock_start (now e) (clock s)\<rparr>))"
    using assms by (simp add: blur_ok_def emit_frame)
  from blur_ok_tick [OF this] True show ?thesis
    by (simp add: handleVisibilityChange_resume)
next
  case False
  with assms show ?thesis
    by (auto simp: handleVisibilityChange_def Let_def settle_simps blur_ok_def emit_frame
        cancelAnimationFrame_frame)
qed

lemma blur_ok_observer_entry:
  assumes "blur_ok s"
  shows "blur_ok (settle (observer_entry e x s))"
proof -
  have keep: "blur_ok (emit a (clearTimeout h (s\<lparr>isVisible := x\<rparr>)\<lparr>pauseTimeout := None\<rparr>))"
    "blur_ok (emit a (s\<lparr>isVisible := x\<rparr>))"
    "blur_ok (clearTimeout h (s\<lparr>isVisible := x\<rparr>)\<lparr>pauseTimeout := None\<rparr>)"
    "blur_ok (s\<lparr>isVisible := x\<rparr>)" for a h
    using assms by (simp_all add: blur_ok_def emit_frame clearTimeout_frame)
  show ?thesis
    using keep
    by (auto simp: observer_entry_def Let_def settle_simps setTimeout_def
        intro!: blur_ok_handleVisibilityChange)
      (simp_all add: blur_ok_def emit_frame clearTimeout_frame)
qed

lemma blur_ok_step: "blur_ok s \<Longrightarrow> blur_ok (step e ev s)"
proof (cases ev)
  case (Intersection xs)
  assume b: "blur_ok s"
  have "blur_ok (settle (observer_callback e xs s))"
  proof (rule observer_callback_preserves [where P = blur_ok])
    show "blur_ok (settle (observer_entry e x s'))" if "blur_ok s'" for x s'
      using that by (rule blur_ok_observer_entry)
    show "blur_ok s" by (rule b)
  qed
  with b Intersection show ?thesis by (simp add: step_def settle_simps)
next
  case (Timeout i)
  assume b: "blur_ok s"
  show ?thesis
  proof (cases "map_of (timers s) i")
    case None
    with b Timeout show ?thesis by (simp add: step_def settle_simps)
  next
    case (Some kd)
    obtain k due where kd: "kd = (k, due)" by (cases kd)
    let ?s = "s\<lparr>timers := filter (\<lambda>x. fst x \<noteq> i) (timers s)\<rparr>"
    have b': "blur_ok ?s" using b by (simp add: blur_ok_def)
    have "blur_ok (settle (timer_callback e k ?s))"
    proof (cases k)
      case ResumeTimer
      with b' show ?thesis
        by (simp add: timer_callback_def settle_simps blur_ok_def resume_callback_frame)
    next
      case PauseTimer
      with blur_ok_handleVisibilityChange [OF b'] show ?thesis
        by (simp add: timer_callback_def)
    qed
    with b Timeout Some kd show ?thesis by (simp add: step_def settle_simps)
  qed
next
  case (AnimationFrame i)
  assume b: "blur_ok s"
  then have "blur_ok (s\<lparr>frames := frames s - {i}\<rparr>)" by (simp add: blur_ok_def)
  from blur_ok_tick [OF this] b AnimationFrame show ?thesis
    by (simp add: step_def settle_simps)
qed (simp_all add: step_def settle_simps blur_ok_def emit_frame resumeRotation_frame
      controls_start_frame controls_end_def Let_def)

lemma blur_ok_ticks: "blur_ok s \<Longrightarrow> blur_ok (ticks xs s)"
proof (induction xs arbitrary: s)
  case Nil
  then show ?case by simp
next
  case (Cons x xs)
  obtain a e where x: "x = (a, e)" by (cases x)
  from Cons.prems have "blur_ok (s\<lparr>model := Some a\<rparr>)" by (simp add: blur_ok_def)
  from Cons.IH [OF blur_ok_tick [OF this]] show ?case by (simp add: x)
qed

lemma blur_ok_boot: "blur_ok (boot e m)"
  unfolding boot_def by (rule blur_ok_tick) (simp add: blur_ok_def init_def)

text \<open>
  C6. Started with the smoothed velocity and the uniform at 0, the uniform is in \<open>[0, 1]\<close>
  after any run of ticks, whatever the times of the ticks (so whatever their deltas) and
  whatever angle each tick finds the model at; and so it is after any sequence of events of
  the running page.
\<close>

theorem uniform_in_unit_interval:
  assumes "smoothedVelocity s = 0" and "uAngularVelocity s = 0"
  shows "0 \<le> uAngularVelocity (ticks xs s) \<and> uAngularVelocity (ticks xs s) \<le> 1 \<and>
         0 \<le> uAngularVelocity (run es (boot e m)) \<and> uAngularVelocity (run es (boot e m)) \<le> 1"
proof -
  from assms have "blur_ok s" by (simp add: blur_ok_def)
  then have "blur_ok (ticks xs s)" by (rule blur_ok_ticks)
  moreover have "blur_ok (run es (boot e m))"
  proof (rule run_preserves [where P = blur_ok])
    show "blur_ok (step e' ev s')" if "blur_ok s'" for e' ev s'
      using that by (rule blur_ok_step)
    show "blur_ok (boot e m)" by (rule blur_ok_boot)
  qed
  ultimately show ?thesis by (simp add: blur_ok_def)
qed

theorem uniform_in_unit_interval_witness:
  "smoothedVelocity (init Webflow) = 0 \<and> uAngularVelocity (init Webflow) = 0 \<and>
   uAngularVelocity (ticks scenario_D (boot (at_ms 0) Webflow)) = 1 \<and>
   uAngularVelocity (ticks (scenario_D @ [(2.9, at_ms 6000), (2.9, at_ms 7000)]) (init Webflow))
     = 1 \<and>
   0 \<le> uAngularVelocity (ticks (scenario_D @ [(3, at_ms 6000), (3.01, at_ms 7000)]) (init Webflow)) \<and>
   uAngularVelocity (ticks (scenario_D @ [(3, at_ms 6000), (3.01, at_ms 7000)]) (init Webflow)) \<le> 1"
proof -
  have z: "smoothedVelocity (init Webflow) = 0" "uAngularVelocity (init Webflow) = 0"
    by (simp_all add: init_def)
  have a: "uAngularVelocity (ticks scenario_D (boot (at_ms 0) Webflow)) = 1" by code_simp
  have b: "uAngularVelocity (ticks (scenario_D @ [(2.9, at_ms 6000), (2.9, at_ms 7000)]) (init Webflow)) = 1"
    by code_simp
  from uniform_in_unit_interval [OF z, of "scenario_D @ [(3, at_ms 6000), (3.01, at_ms 7000)]"]
    z a b show ?thesis by blast
qed

subsection \<open>The speed multiplier stays in range\<close>

lemma ease_unit:
  assumes "0 \<le> x"
  shows "0 \<le> easePower2Out (min (x / 1200) 1)" and "easePower2Out (min (x / 1200) 1) \<le> 1"
proof -
  define p where "p = min (x / 1200) 1"
  have p: "0 \<le> p" "p \<le> 1" using assms by (simp_all add: p_def)
  then have "0 \<le> p * (2 - p)" by (intro mult_nonneg_nonneg) simp_all
  then show "0 \<le> easePower2Out (min (x / 1200) 1)"
    by (simp add: easePower2Out_def p_def)
  have "1 - p * (2 - p) = (1 - p) * (1 - p)" by (simp add: algebra_simps)
  also have "0 \<le> (1 - p) * (1 - p)" by simp
  finally show "easePower2Out (min (x / 1200) 1) \<le> 1"
    by (simp add: easePower2Out_def p_def)
qed

lemma tick_stopped: "\<not> isRendering s \<Longrightarrow> tick e s = Inr s"
  by (simp add: tick_def)

lemma tick_multiplier:
  "rotationSpeedMultiplier (settle (tick e s)) =
     (if isRendering s \<and> model s \<noteq> None \<and> autoRotate s \<and> rotationSpeedMultiplier s < 1
      then easePower2Out (min ((now e - transitionStartTime s) / 1200) 1)
      else rotationSpeedMultiplier s)"
proof (cases "isRendering s")
  case False
  then show ?thesis by (simp add: tick_stopped settle_simps)
next
  case True
  show ?thesis
  proof (cases "model s")
    case None
    with tick_no_model [OF None, of e] show ?thesis by simp
  next
    case (Some y)
    with tick_with_model(1) [OF True Some, of e] True show ?thesis by simp
  qed
qed

lemma speed_ok_mono: "speed_ok t s \<Longrightarrow> t \<le> t' \<Longrightarrow> speed_ok t' s"
  by (simp add: speed_ok_def)

lemma speed_ok_tick:
  assumes "speed_ok t s" and "t \<le> now e"
  shows "speed_ok (now e) (settle (tick e s))"
proof -
  from assms have "0 \<le> now e - transitionStartTime s" by (simp add: speed_ok_def)
  from ease_unit [OF this] assms show ?thesis
    by (simp add: speed_ok_def tick_frame tick_multiplier)
qed

lemma speed_ok_handleVisibilityChange:
  assumes "speed_ok t s" and "t \<le> now e"
  shows "speed_ok (now e) (settle (handleVisibilityChange e v s))"
proof (cases "v \<and> \<not> isRendering s")
  case True
  have "speed_ok t (emit (LogInfo ''Rendering resumed'')
                  (s\<lparr>isRendering := True, clock := clock_start (now e) (clock s)\<rparr>))"
    using assms by (simp add: speed_ok_def emit_frame)
  from speed_ok_tick [OF this assms(2)] True show ?thesis
    by (simp add: handleVisibilityChange_resume)
next
  case False
  with assms show ?thesis
    by (auto simp: handleVisibilityChange_def Let_def settle_simps speed_ok_def emit_frame
        cancelAnimationFrame_frame)
qed

lemma speed_ok_observer_entry:
  assumes "speed_ok t s" and "t \<le> now e"
  shows "speed_ok (now e) (settle (observer_entry e x s))"
proof -
  have keep: "speed_ok t (emit a (clearTimeout h (s\<lparr>isVisible := x\<rparr>)\<lparr>pauseTimeout := None\<rparr>))"
    "speed_ok t (emit a (s\<lparr>isVisible := x\<rparr>))" for a h
    using assms by (simp_all add: speed_ok_def emit_frame clearTimeout_frame)
  have keep': "speed_ok (now e) (clearTimeout h (s\<lparr>isVisible := x\<rparr>)\<lparr>pauseTimeout := None\<rparr>)"
    "speed_ok (now e) (s\<lparr>isVisible := x\<rparr>)" for h
    using assms by (simp_all add: speed_ok_def clearTimeout_frame)
  show ?thesis
    using keep keep' assms(2)
    by (auto simp: observer_entry_def Let_def settle_simps setTimeout_def
        intro!: speed_ok_handleVisibilityChange)
      (simp_all add: speed_ok_def emit_frame clearTimeout_frame)
qed

lemma resumeRotation_values:
  "userInteracting (resumeRotation e s) = False"
  "resumeTimeout (resumeRotation e s) = Some (nextTimerId s)"
  "nextTimerId (resumeRotation e s) = Suc (nextTimerId s)"
  "timers (resumeRotation e s) =
     filter (\<lambda>x. Some (fst x) \<noteq> resumeTimeout s) (timers s)
     @ [(nextTimerId s, ResumeTimer, now e + 700)]"
  by (simp_all add: resumeRotation_def cfg Let_def clearTimeout_def setTimeout_def
      split: option.splits)

lemma speed_ok_resumeRotation: "speed_ok t s \<Longrightarrow> speed_ok t (resumeRotation e s)"
  by (simp add: speed_ok_def resumeRotation_frame resumeRotation_values)

lemma speed_ok_step:
  assumes "speed_ok t s" and "t \<le> now e"
  shows "speed_ok (now e) (step e ev s)"
proof (cases ev)
  case (Intersection xs)
  have "speed_ok (now e) (settle (observer_callback e xs s))"
  proof (rule observer_callback_preserves [where P = "speed_ok (now e)"])
    show "speed_ok (now e) (settle (observer_entry e x s'))" if "speed_ok (now e) s'" for x s'
      using that by (rule speed_ok_observer_entry) simp
    show "speed_ok (now e) s" using assms by (rule speed_ok_mono)
  qed
  with assms Intersection show ?thesis by (simp add: step_def settle_simps speed_ok_def)
next
  case (Timeout i)
  note b = speed_ok_mono [OF assms]
  show ?thesis
  proof (cases "map_of (timers s) i")
    case None
    with b Timeout show ?thesis by (simp add: step_def settle_simps)
  next
    case (Some kd)
    obtain k due where kd: "kd = (k, due)" by (cases kd)
    let ?s = "s\<lparr>timers := filter (\<lambda>x. fst x \<noteq> i) (timers s)\<rparr>"
    have b': "speed_ok (now e) ?s" using b by (simp add: speed_ok_def)
    have "speed_ok (now e) (settle (timer_callback e k ?s))"
    proof (cases k)
      case ResumeTimer
      with b' show ?thesis
        by (simp add: timer_callback_def settle_simps speed_ok_def resume_callback_def cfg)
    next
      case PauseTimer
      with speed_ok_handleVisibilityChange [OF b'] show ?thesis
        by (simp add: timer_callback_def)
    qed
    with b Timeout Some kd show ?thesis by (simp add: step_def settle_simps)
  qed
next
  case (AnimationFrame i)
  from assms(1) have "speed_ok t (s\<lparr>frames := frames s - {i}\<rparr>)" by (simp add: speed_ok_def)
  from speed_ok_tick [OF this assms(2)] speed_ok_mono [OF assms] AnimationFrame show ?thesis
    by (simp add: step_def settle_simps)
next
  case ControlsStart
  with speed_ok_mono [OF assms] show ?thesis
    by (simp add: step_def settle_simps speed_ok_def controls_start_def cfg Let_def
        clearTimeout_frame)
next
  case MouseLeave
  from speed_ok_mono [OF assms] have b: "speed_ok (now e) (s\<lparr>isMouseDown := False\<rparr>)"
    by (simp add: speed_ok_def)
  from b speed_ok_resumeRotation [OF b, of e] MouseLeave show ?thesis
    by (simp add: step_def settle_simps Let_def)
next
  case ControlsEnd
  from speed_ok_mono [OF assms] speed_ok_resumeRotation [OF speed_ok_mono [OF assms], of e]
    ControlsEnd show ?thesis
    by (simp add: step_def settle_simps controls_end_def)
qed (use speed_ok_mono [OF assms] in
      \<open>simp_all add: step_def settle_simps speed_ok_def emit_frame\<close>)

lemma speed_ok_run:
  "speed_ok t s \<Longrightarrow> chronological t es \<Longrightarrow> \<exists>t'. speed_ok t' (run es s)"
proof (induction es arbitrary: t s)
  case Nil
  then show ?case by auto
next
  case (Cons x es)
  obtain e ev where x: "x = (e, ev)" by (cases x)
  from Cons.prems have "t \<le> now e" "chronological (now e) es" by (simp_all add: x)
  from Cons.IH [OF speed_ok_step [OF Cons.prems(1) this(1)] this(2)] show ?case
    by (simp add: x)
qed

lemma speed_ok_boot: "0 \<le> now e \<Longrightarrow> speed_ok (now e) (boot e m)"
  unfolding boot_def by (rule speed_ok_tick) (simp_all add: speed_ok_def init_def)

text \<open>
  C5. After start-up at a time that is not negative and any sequence of events whose time
  stamps do not decrease, the speed multiplier is in \<open>[0, 1]\<close>, and it is 0 whenever the
  state is Interacting or ResumeScheduled.
\<close>

theorem multiplier_in_unit_interval:
  assumes "0 \<le> now e" and "chronological (now e) es"
  shows "0 \<le> rotationSpeedMultiplier (run es (boot e m)) \<and>
         rotationSpeedMultiplier (run es (boot e m)) \<le> 1 \<and>
         (rotation_state_of (run es (boot e m)) = Interacting \<or>
          rotation_state_of (run es (boot e m)) = ResumeScheduled \<longrightarrow>
            rotationSpeedMultiplier (run es (boot e m)) = 0)"
proof -
  from speed_ok_run [OF speed_ok_boot [OF assms(1)] assms(2)]
  obtain t' where "speed_ok t' (run es (boot e m))" by blast
  then show ?thesis
    by (auto simp: speed_ok_def rotation_state_of_def split: if_splits)
qed

theorem multiplier_in_unit_interval_witness:
  "0 \<le> now (at_ms 0) \<and>
   chronological (now (at_ms 0))
     [(at_ms 10, ModelLoaded 0), (at_ms 20, MouseDown 0), (at_ms 20, ControlsStart)] \<and>
   rotation_state_of
     (run [(at_ms 10, ModelLoaded 0), (at_ms 20, MouseDown 0), (at_ms 20, ControlsStart)]
        (boot (at_ms 0) Webflow)) = Interacting \<and>
   rotationSpeedMultiplier
     (run [(at_ms 10, ModelLoaded 0), (at_ms 20, MouseDown 0), (at_ms 20, ControlsStart)]
        (boot (at_ms 0) Webflow)) = 0"
proof -
  have t: "0 \<le> now (at_ms 0)" by (simp add: at_ms_def)
  have c: "chronological (now (at_ms 0))
     [(at_ms 10, ModelLoaded 0), (at_ms 20, MouseDown 0), (at_ms 20, ControlsStart)]"
    by (simp add: at_ms_def)
  have i: "rotation_state_of
     (run [(at_ms 10, ModelLoaded 0), (at_ms 20, MouseDown 0), (at_ms 20, ControlsStart)]
        (boot (at_ms 0) Webflow)) = Interacting"
    by code_simp
  from multiplier_in_unit_interval [OF t c, of Webflow] i t c show ?thesis by blast
qed

subsection \<open>The resume timer\<close>

lemma controls_start_values:
  "timers (controls_start s) =
     (if isMouseDown s \<or> isTouching s
      then filter (\<lambda>x. Some (fst x) \<noteq> resumeTimeout s) (timers s) else timers s)"
  "userInteracting (controls_start s) = (isMouseDown s \<or> isTouching s \<or> userInteracting s)"
  "autoRotate (controls_start s) = (\<not> (isMouseDown s \<or> isTouching s) \<and> autoRotate s)"
  "rotationSpeedMultiplier (controls_start s) =
     (if isMouseDown s \<or> isTouching s then 0 else rotationSpeedMultiplier s)"
  by (auto simp: controls_start_def cfg Let_def clearTimeout_def split: option.splits)

lemma observer_entry_values:
  "isVisible (settle (observer_entry e b s)) = b"
  "timers (settle (observer_entry e b s)) =
     (if truthy (pauseTimeout s)
      then filter (\<lambda>x. Some (fst x) \<noteq> pauseTimeout s) (timers s) else timers s)
     @ (if \<not> b \<and> isVisible s then [(nextTimerId s, PauseTimer, now e + PAUSE_DELAY)] else [])"
  "pauseTimeout (settle (observer_entry e b s)) =
     (if \<not> b \<and> isVisible s then Some (nextTimerId s)
      else if truthy (pauseTimeout s) then None else pauseTimeout s)"
  "nextTimerId (settle (observer_entry e b s)) =
     (if \<not> b \<and> isVisible s then Suc (nextTimerId s) else nextTimerId s)"
  by (auto simp: observer_entry_def Let_def settle_simps setTimeout_def clearTimeout_def
      handleVisibilityChange_frame emit_frame split: option.splits)

lemma resume_ok_resumeRotation: "resume_ok s \<Longrightarrow> resume_ok (resumeRotation e s)"
  by (auto simp: resume_ok_def resumeRotation_values)

lemma resume_ok_controls_start: "resume_ok s \<Longrightarrow> resume_ok (controls_start s)"
  by (auto simp: resume_ok_def controls_start_values controls_start_frame)

lemma resume_ok_observer_entry: "resume_ok s \<Longrightarrow> resume_ok (settle (observer_entry e b s))"
  by (auto simp: resume_ok_def observer_entry_values observer_entry_frame)

lemma resume_ok_step: "resume_ok s \<Longrightarrow> resume_ok (step e ev s)"
proof (cases ev)
  case (Intersection xs)
  assume b: "resume_ok s"
  have "resume_ok (settle (observer_callback e xs s))"
  proof (rule observer_callback_preserves [where P = resume_ok])
    show "resume_ok (settle (observer_entry e x s'))" if "resume_ok s'" for x s'
      using that by (rule resume_ok_observer_entry)
    show "resume_ok s" by (rule b)
  qed
  with b Intersection show ?thesis by (simp add: step_def settle_simps)
next
  case (Timeout i)
  assume b: "resume_ok s"
  show ?thesis
  proof (cases "map_of (timers s) i")
    case None
    with b Timeout show ?thesis by (simp add: step_def settle_simps)
  next
    case (Some kd)
    obtain k due where kd: "kd = (k, due)" by (cases kd)
    let ?s = "s\<lparr>timers := filter (\<lambda>x. fst x \<noteq> i) (timers s)\<rparr>"
    have b': "resume_ok ?s" using b by (simp add: resume_ok_def)
    have "resume_ok (settle (timer_callback e k ?s))"
      using b'
      by (cases k)
        (simp_all add: timer_callback_def settle_simps resume_ok_def resume_callback_frame
          handleVisibilityChange_frame)
    with b Timeout Some kd show ?thesis by (simp add: step_def settle_simps)
  qed
next
  case (AnimationFrame i)
  assume b: "resume_ok s"
  then show ?thesis using AnimationFrame
    by (simp add: step_def settle_simps resume_ok_def tick_frame)
next
  case ControlsStart
  assume "resume_ok s"
  from resume_ok_controls_start [OF this] ControlsStart show ?thesis
    by (simp add: step_def settle_simps)
next
  case MouseLeave
  assume "resume_ok s"
  then have b: "resume_ok (s\<lparr>isMouseDown := False\<rparr>)" by (simp add: resume_ok_def)
  from b resume_ok_resumeRotation [OF b, of e] MouseLeave show ?thesis
    by (simp add: step_def settle_simps Let_def)
next
  case ControlsEnd
  assume b: "resume_ok s"
  from b resume_ok_resumeRotation [OF b, of e] ControlsEnd show ?thesis
    by (simp add: step_def settle_simps controls_end_def)
qed (simp_all add: step_def settle_simps resume_ok_def emit_frame)

lemma resume_ok_boot: "resume_ok (boot e m)"
  by (simp add: boot_def resume_ok_def tick_frame init_def)

lemma resume_ok_reachable: "resume_ok (run es (boot e m))"
proof (rule run_preserves [where P = resume_ok])
  show "resume_ok (step e' ev s')" if "resume_ok s'" for e' ev s'
    using that by (rule resume_ok_step)
  show "resume_ok (boot e m)" by (rule resume_ok_boot)
qed

lemma handleVisibilityChange_multiplier:
  "\<not> autoRotate s \<Longrightarrow>
   rotationSpeedMultiplier (settle (handleVisibilityChange e v s)) = rotationSpeedMultiplier s"
  by (cases "v \<and> \<not> isRendering s")
    (auto simp: handleVisibilityChange_resume tick_multiplier emit_frame
      handleVisibilityChange_def Let_def settle_simps cancelAnimationFrame_frame)

lemma observer_entry_multiplier:
  "\<not> autoRotate s \<Longrightarrow>
   rotationSpeedMultiplier (settle (observer_entry e b s)) = rotationSpeedMultiplier s"
  by (auto simp: observer_entry_def Let_def settle_simps setTimeout_def
      handleVisibilityChange_multiplier emit_frame clearTimeout_frame)

lemma held_observer_entry: "held s \<Longrightarrow> held (settle (observer_entry e b s))"
  by (auto simp: held_def resume_pending_def observer_entry_values observer_entry_frame
      observer_entry_multiplier)

lemma held_step:
  assumes "held s" and "\<not> interaction_end ev"
  shows "held (step e ev s)"
proof (cases ev)
  case (Intersection xs)
  have "held (settle (observer_callback e xs s))"
  proof (rule observer_callback_preserves [where P = held])
    show "held (settle (observer_entry e x s'))" if "held s'" for x s'
      using that by (rule held_observer_entry)
    show "held s" by (rule assms(1))
  qed
  with assms(1) Intersection show ?thesis by (simp add: step_def settle_simps)
next
  case (Timeout i)
  show ?thesis
  proof (cases "map_of (timers s) i")
    case None
    with assms(1) Timeout show ?thesis by (simp add: step_def settle_simps)
  next
    case (Some kd)
    obtain k due where kd: "kd = (k, due)" by (cases kd)
    let ?s = "s\<lparr>timers := filter (\<lambda>x. fst x \<noteq> i) (timers s)\<rparr>"
    have b': "held ?s" using assms(1) by (auto simp: held_def resume_pending_def)
    have "held (settle (timer_callback e k ?s))"
    proof (cases k)
      case ResumeTimer
      with b' show ?thesis
        by (simp add: timer_callback_def settle_simps held_def resume_callback_def)
    next
      case PauseTimer
      with b' show ?thesis
        by (simp add: timer_callback_def held_def resume_pending_def
            handleVisibilityChange_frame handleVisibilityChange_multiplier)
    qed
    with assms(1) Timeout Some kd show ?thesis by (simp add: step_def settle_simps)
  qed
next
  case (AnimationFrame i)
  with assms(1) show ?thesis
    by (simp add: step_def settle_simps held_def resume_pending_def tick_frame tick_multiplier)
next
  case ControlsStart
  with assms(1) show ?thesis
    by (auto simp: step_def settle_simps held_def resume_pending_def controls_start_values)
next
  case MouseLeave
  with assms(2) show ?thesis by simp
next
  case ControlsEnd
  with assms(2) show ?thesis by simp
qed (use assms(1) in \<open>simp_all add: step_def settle_simps held_def resume_pending_def emit_frame\<close>)

lemma held_run:
  "held s \<Longrightarrow> \<forall>x \<in> set es. \<not> interaction_end (snd x) \<Longrightarrow> held (run es s)"
proof (induction es arbitrary: s)
  case Nil
  then show ?case by simp
next
  case (Cons x es)
  obtain e ev where x: "x = (e, ev)" by (cases x)
  from Cons.prems have "\<not> interaction_end ev" "\<forall>x \<in> set es. \<not> interaction_end (snd x)"
    by (simp_all add: x)
  from Cons.IH [OF held_step [OF Cons.prems(1) this(1)] this(2)] show ?case by (simp add: x)
qed

lemma held_controls_start:
  assumes "resume_ok s" and "isMouseDown s \<or> isTouching s"
  shows "held (step e ControlsStart s)"
  using assms
  by (auto simp: step_def settle_simps held_def resume_pending_def resume_ok_def
      controls_start_values controls_start_frame)

text \<open>
  What the start listener does once a flag is set (at the start of a second pointer, for
  one). Take any state the page can reach and a start signal that arrives there while
  \<^verbatim>\<open>isMouseDown\<close> or \<^verbatim>\<open>isTouching\<close> is set. Right after the start no resume timer is
  pending. And after any further events, as long as none of them ends the interaction, there
  is still no resume timer pending and the state is still Interacting, with auto-rotation
  off and the multiplier at 0.
\<close>

lemma flagged_start_cancels_resume_timer:
  assumes "isMouseDown (run es (boot e0 m)) \<or> isTouching (run es (boot e0 m))"
    and "\<forall>x \<in> set later. \<not> interaction_end (snd x)"
  shows "\<not> resume_pending (step e ControlsStart (run es (boot e0 m))) \<and>
         \<not> resume_pending (run later (step e ControlsStart (run es (boot e0 m)))) \<and>
         rotation_state_of (run later (step e ControlsStart (run es (boot e0 m)))) = Interacting \<and>
         \<not> autoRotate (run later (step e ControlsStart (run es (boot e0 m)))) \<and>
         rotationSpeedMultiplier (run later (step e ControlsStart (run es (boot e0 m)))) = 0"
proof -
  have h: "held (step e ControlsStart (run es (boot e0 m)))"
    using resume_ok_reachable assms(1) by (rule held_controls_start)
  from held_run [OF h assms(2)] h show ?thesis
    by (simp add: held_def rotation_state_of_def)
qed

text \<open>
  C1, on the script. The start of an ordinary press is not honored, because it arrives before
  the press has set the flag the listener tests. With the resume timer of an earlier end
  pending and nothing touching the canvas, a finger comes down at 300 ms: the start that
  this press causes leaves the timer pending and the state ResumeScheduled; the finger stays
  down; at 800 ms the timer fires and the state is Transitioning, with the finger still down.
  Nor does a first press with the mouse stop the rotation: after it the state is still
  AutoRotating.
\<close>

theorem press_leaves_resume_timer:
  "resume_pending released \<and> rotation_state_of released = ResumeScheduled \<and>
   \<not> isTouching released \<and> \<not> isMouseDown released \<and>
   resume_pending (step (at_ms 300) ControlsStart released) \<and>
   rotation_state_of (step (at_ms 300) ControlsStart released) = ResumeScheduled \<and>
   isTouching (run (touch_press (at_ms 300)) released) \<and>
   resume_pending (run (touch_press (at_ms 300)) released) \<and>
   isTouching (run (touch_press (at_ms 300) @ [(at_ms 800, Timeout 1)]) released) \<and>
   autoRotate (run (touch_press (at_ms 300) @ [(at_ms 800, Timeout 1)]) released) \<and>
   rotation_state_of (run (touch_press (at_ms 300) @ [(at_ms 800, Timeout 1)]) released)
     = Transitioning \<and>
   isMouseDown (run (mouse_press (at_ms 20)) (boot (at_ms 0) Webflow)) \<and>
   rotation_state_of (run (mouse_press (at_ms 20)) (boot (at_ms 0) Webflow)) = AutoRotating"
  by code_simp

subsection \<open>The pause timer\<close>

lemma paused_count_emit:
  "paused_count (emit x s) =
     (if x = LogInfo ''Rendering paused (saving resources)'' then Suc (paused_count s)
      else paused_count s)"
  by (simp add: paused_count_def emit_def)

lemma paused_count_tick: "paused_count (settle (tick e s)) = paused_count s"
  by (simp add: paused_count_def tick_effects)

lemma running_getDelta: "running c \<Longrightarrow> running (snd (clock_getDelta t c))"
  by (simp add: clock_getDelta_def Let_def)

lemma running_tick: "running (clock s) \<Longrightarrow> running (clock (settle (tick e s)))"
  by (cases "isRendering s") (simp_all add: tick_running running_getDelta tick_stopped settle_simps)

lemma handleVisibilityChange_idle:
  "isRendering s \<Longrightarrow> settle (handleVisibilityChange e True s) = s"
  "\<not> isRendering s \<Longrightarrow> settle (handleVisibilityChange e False s) = s"
  by (simp_all add: handleVisibilityChange_def settle_simps)

lemma handleVisibilityChange_isRendering:
  "isRendering (settle (handleVisibilityChange e v s)) = v"
  by (cases "v \<and> \<not> isRendering s")
    (auto simp: handleVisibilityChange_resume tick_frame emit_frame
      handleVisibilityChange_def Let_def settle_simps cancelAnimationFrame_frame)

lemma handleVisibilityChange_running:
  assumes "isRendering s \<longrightarrow> running (clock s)"
  shows "isRendering (settle (handleVisibilityChange e v s))
         \<longrightarrow> running (clock (settle (handleVisibilityChange e v s)))"
proof (cases "v \<and> \<not> isRendering s")
  case True
  have "running (clock (emit (LogInfo ''Rendering resumed'')
                  (s\<lparr>isRendering := True, clock := clock_start (now e) (clock s)\<rparr>)))"
    by (simp add: emit_frame clock_start_def)
  from running_tick [OF this] True show ?thesis
    by (simp add: handleVisibilityChange_resume)
next
  case False
  with assms show ?thesis
    by (cases v) (simp_all add: handleVisibilityChange_idle handleVisibilityChange_isRendering)
qed

lemma observer_callback_single: "observer_callback e [b] s = observer_entry e b s"
  by (cases "observer_entry e b s") simp_all

lemma observer_entry_isRendering:
  "isRendering (settle (observer_entry e b s)) = (b \<and> \<not> isVisible s \<or> isRendering s)"
  by (auto simp: observer_entry_def Let_def settle_simps setTimeout_def
      handleVisibilityChange_isRendering emit_frame clearTimeout_frame)

lemma observer_entry_running:
  assumes "isRendering s \<longrightarrow> running (clock s)"
  shows "isRendering (settle (observer_entry e b s))
         \<longrightarrow> running (clock (settle (observer_entry e b s)))"
proof -
  have "isRendering s' \<longrightarrow> running (clock s')"
    if "isRendering s' = isRendering s" "clock s' = clock s" for s'
    using assms that by simp
  note k = this [THEN handleVisibilityChange_running]
  show ?thesis
    using assms
    by (auto simp: observer_entry_def Let_def settle_simps setTimeout_def
        emit_frame clearTimeout_frame intro!: k [THEN mp])
qed

lemma observer_entry_steady:
  assumes "isRendering s"
  shows "clock (settle (observer_entry e b s)) = clock s"
    and "paused_count (settle (observer_entry e b s)) = paused_count s"
  using assms
  by (auto simp: observer_entry_def Let_def settle_simps setTimeout_def
      handleVisibilityChange_idle emit_frame emit_effects clearTimeout_frame paused_count_def)

lemma pause_named_resumeRotation: "pause_named s \<Longrightarrow> pause_named (resumeRotation e s)"
  by (auto simp: pause_named_def resumeRotation_values resumeRotation_frame)

lemma pause_named_controls_start: "pause_named s \<Longrightarrow> pause_named (controls_start s)"
  by (auto simp: pause_named_def controls_start_values controls_start_frame)

lemma pause_named_observer_entry:
  "pause_named s \<Longrightarrow> pause_named (settle (observer_entry e b s))"
  by (auto simp: pause_named_def observer_entry_values)

lemma cleared_observer_entry:
  "pause_named s \<Longrightarrow> pause_pending (settle (observer_entry e b s)) = (\<not> b \<and> isVisible s)"
  by (auto simp: pause_named_def pause_pending_def observer_entry_values)

lemma pause_ok_observer_entry:
  assumes "pause_ok s"
  shows "pause_ok (settle (observer_entry e b s))"
proof -
  from assms have n: "pause_named s" and v: "isVisible s \<longrightarrow> isRendering s"
    and r: "isRendering s \<longrightarrow> running (clock s)"
    by (simp_all add: pause_ok_def)
  from v show ?thesis
    unfolding pause_ok_def
    using pause_named_observer_entry [OF n, of e b] cleared_observer_entry [OF n, of e b]
      observer_entry_running [OF r, of e b]
    by (auto simp: observer_entry_values observer_entry_isRendering)
qed

lemma pause_ok_tick: "pause_ok s \<Longrightarrow> pause_ok (settle (tick e s))"
  by (auto simp: pause_ok_def pause_named_def pause_pending_def tick_frame running_tick)

lemma pause_ok_step: "pause_ok s \<Longrightarrow> pause_ok (step e ev s)"
proof (cases ev)
  case (Intersection xs)
  assume b: "pause_ok s"
  have "pause_ok (settle (observer_callback e xs s))"
  proof (rule observer_callback_preserves [where P = pause_ok])
    show "pause_ok (settle (observer_entry e x s'))" if "pause_ok s'" for x s'
      using that by (rule pause_ok_observer_entry)
    show "pause_ok s" by (rule b)
  qed
  with b Intersection show ?thesis by (simp add: step_def settle_simps)
next
  case (Timeout i)
  assume b: "pause_ok s"
  show ?thesis
  proof (cases "map_of (timers s) i")
    case None
    with b Timeout show ?thesis by (simp add: step_def settle_simps)
  next
    case (Some kd)
    obtain k due where kd: "kd = (k, due)" by (cases kd)
    let ?s = "s\<lparr>timers := filter (\<lambda>x. fst x \<noteq> i) (timers s)\<rparr>"
    have b': "pause_ok ?s"
      using b by (auto simp: pause_ok_def pause_named_def pause_pending_def)
    have "pause_ok (settle (timer_callback e k ?s))"
    proof (cases k)
      case ResumeTimer
      with b' show ?thesis
        by (simp add: timer_callback_def settle_simps pause_ok_def pause_named_def
            pause_pending_def resume_callback_frame)
    next
      case PauseTimer
      from Some kd PauseTimer have "(i, PauseTimer, due) \<in> set (timers s)"
        by (auto dest: map_of_SomeD)
      then have "pause_pending s" by (force simp: pause_pending_def)
      with b have "\<not> isVisible s" by (auto simp: pause_ok_def)
      with b' PauseTimer show ?thesis
        by (simp add: timer_callback_def pause_ok_def pause_named_def pause_pending_def
            handleVisibilityChange_frame handleVisibilityChange_isRendering)
    qed
    with b Timeout Some kd show ?thesis by (simp add: step_def settle_simps)
  qed
next
  case (AnimationFrame i)
  assume "pause_ok s"
  then have "pause_ok (s\<lparr>frames := frames s - {i}\<rparr>)"
    by (simp add: pause_ok_def pause_named_def pause_pending_def)
  from pause_ok_tick [OF this] \<open>pause_ok s\<close> AnimationFrame show ?thesis
    by (simp add: step_def settle_simps)
next
  case ControlsStart
  assume "pause_ok s"
  with pause_named_controls_start [of s] ControlsStart show ?thesis
    by (auto simp: step_def settle_simps pause_ok_def pause_pending_def controls_start_values
        controls_start_frame)
next
  case MouseLeave
  assume b: "pause_ok s"
  then have n: "pause_named (s\<lparr>isMouseDown := False\<rparr>)"
    by (simp add: pause_ok_def pause_named_def)
  from b n pause_named_resumeRotation [OF n, of e] MouseLeave show ?thesis
    by (auto simp: step_def settle_simps Let_def pause_ok_def pause_pending_def
        resumeRotation_values resumeRotation_frame)
next
  case ControlsEnd
  assume b: "pause_ok s"
  then have n: "pause_named s" by (simp add: pause_ok_def)
  from b pause_named_resumeRotation [OF n, of e] ControlsEnd show ?thesis
    by (auto simp: step_def settle_simps controls_end_def pause_ok_def pause_pending_def
        resumeRotation_values resumeRotation_frame)
qed (simp_all add: step_def settle_simps pause_ok_def pause_named_def pause_pending_def
      emit_frame)

lemma pause_ok_boot: "pause_ok (boot e m)"
proof -
  have "running (clock (settle (tick e (init m))))"
    by (simp add: tick_running init_def clock_getDelta_def new_Clock_def clock_start_def)
  then show ?thesis
    by (simp add: boot_def pause_ok_def pause_named_def pause_pending_def tick_frame init_def)
qed

lemma pause_ok_reachable: "pause_ok (run es (boot e m))"
proof (rule run_preserves [where P = pause_ok])
  show "pause_ok (step e' ev s')" if "pause_ok s'" for e' ev s'
    using that by (rule pause_ok_step)
  show "pause_ok (boot e m)" by (rule pause_ok_boot)
qed

subsection \<open>A short absence\<close>

lemma waiting_step:
  assumes "waiting t c s" and "now e < t" and "\<not> is_intersection ev"
  shows "waiting t c (step e ev s)"
proof (cases ev)
  case (Intersection xs)
  with assms(3) show ?thesis by simp
next
  case (Timeout i)
  show ?thesis
  proof (cases "map_of (timers s) i")
    case None
    with assms(1) Timeout show ?thesis by (simp add: step_def settle_simps)
  next
    case (Some kd)
    obtain k due where kd: "kd = (k, due)" by (cases kd)
    from Some kd have mem: "(i, k, due) \<in> set (timers s)" by (auto dest: map_of_SomeD)
    show ?thesis
    proof (cases k)
      case PauseTimer
      with mem assms(1) have "due = t" by (force simp: waiting_def pause_due_def)
      with assms(1,2) Timeout Some kd show ?thesis by (simp add: step_def settle_simps)
    next
      case ResumeTimer
      let ?s = "s\<lparr>timers := filter (\<lambda>x. fst x \<noteq> i) (timers s)\<rparr>"
      have "waiting t c ?s"
        using assms(1) by (auto simp: waiting_def pause_named_def pause_due_def paused_count_def)
      then have "waiting t c (resume_callback e ?s)"
        by (simp add: waiting_def pause_named_def pause_due_def paused_count_def
            resume_callback_frame)
      with assms(1) Timeout Some kd ResumeTimer show ?thesis
        by (simp add: step_def settle_simps timer_callback_def)
    qed
  qed
next
  case (AnimationFrame i)
  from assms(1) have "waiting t c (s\<lparr>frames := frames s - {i}\<rparr>)"
    by (simp add: waiting_def pause_named_def pause_due_def paused_count_def)
  then have "waiting t c (settle (tick e (s\<lparr>frames := frames s - {i}\<rparr>)))"
    by (simp add: waiting_def pause_named_def pause_due_def tick_frame running_tick
        paused_count_tick)
  with assms(1) AnimationFrame show ?thesis by (simp add: step_def settle_simps)
next
  case ControlsStart
  with assms(1) pause_named_controls_start [of s] show ?thesis
    by (auto simp: step_def settle_simps waiting_def pause_due_def paused_count_def
        controls_start_values controls_start_frame)
next
  case MouseLeave
  from assms(1) have w: "waiting t c (s\<lparr>isMouseDown := False\<rparr>)"
    by (simp add: waiting_def pause_named_def pause_due_def paused_count_def)
  then have "pause_named (s\<lparr>isMouseDown := False\<rparr>)" by (simp add: waiting_def)
  from w pause_named_resumeRotation [OF this, of e] MouseLeave show ?thesis
    by (auto simp: step_def settle_simps Let_def waiting_def pause_due_def paused_count_def
        resumeRotation_values resumeRotation_frame)
next
  case ControlsEnd
  from assms(1) have "pause_named s" by (simp add: waiting_def)
  from assms(1) pause_named_resumeRotation [OF this, of e] ControlsEnd show ?thesis
    by (auto simp: step_def settle_simps controls_end_def waiting_def pause_due_def
        paused_count_def resumeRotation_values resumeRotation_frame)
qed (use assms(1) in \<open>simp_all add: step_def settle_simps waiting_def pause_named_def
      pause_due_def paused_count_def emit_frame emit_effects\<close>)

lemma waiting_run:
  "waiting t c s \<Longrightarrow> \<forall>x \<in> set es. now (fst x) < t \<and> \<not> is_intersection (snd x)
   \<Longrightarrow> waiting t c (run es s)"
proof (induction es arbitrary: s)
  case Nil
  then show ?case by simp
next
  case (Cons x es)
  obtain e ev where x: "x = (e, ev)" by (cases x)
  from Cons.prems(2) have "now e < t" "\<not> is_intersection ev"
    "\<forall>x \<in> set es. now (fst x) < t \<and> \<not> is_intersection (snd x)"
    by (simp_all add: x)
  from Cons.IH [OF waiting_step [OF Cons.prems(1) this(1,2)] this(3)] show ?case
    by (simp add: x)
qed

lemma waiting_hidden:
  assumes "pause_ok s" and "observer s" and "isVisible s"
  shows "waiting (now e + PAUSE_DELAY) (paused_count s) (step e (Intersection [False]) s)"
    and "pause_pending (step e (Intersection [False]) s)"
proof -
  from assms have n: "pause_named s" and r: "isRendering s" and c: "running (clock s)"
    and p: "\<not> pause_pending s"
    by (simp_all add: pause_ok_def)
  have eq: "step e (Intersection [False]) s = settle (observer_entry e False s)"
    using assms(2) by (simp add: step_def observer_callback_single del: observer_callback.simps)
  from p have "pause_due (now e + PAUSE_DELAY) (settle (observer_entry e False s))"
    by (auto simp: pause_due_def pause_pending_def observer_entry_values)
  with pause_named_observer_entry [OF n, of e False] assms(2) r c
  show "waiting (now e + PAUSE_DELAY) (paused_count s) (step e (Intersection [False]) s)"
    by (simp add: eq waiting_def observer_entry_frame observer_entry_isRendering
        observer_entry_steady)
  from cleared_observer_entry [OF n, of e False] assms(3)
  show "pause_pending (step e (Intersection [False]) s)"
    by (simp add: eq)
qed

lemma waiting_visible:
  assumes "waiting t c s"
  shows "isRendering (step e (Intersection [True]) s)"
    and "running (clock (step e (Intersection [True]) s))"
    and "paused_count (step e (Intersection [True]) s) = c"
    and "\<not> pause_pending (step e (Intersection [True]) s)"
    and "isVisible (step e (Intersection [True]) s)"
proof -
  from assms have n: "pause_named s" and o: "observer s" and r: "isRendering s"
    and c: "running (clock s)" and k: "paused_count s = c"
    by (simp_all add: waiting_def)
  have eq: "step e (Intersection [True]) s = settle (observer_entry e True s)"
    using o by (simp add: step_def observer_callback_single del: observer_callback.simps)
  show "isRendering (step e (Intersection [True]) s)"
    using r by (simp add: eq observer_entry_isRendering)
  show "running (clock (step e (Intersection [True]) s))"
    using c by (simp add: eq observer_entry_steady [OF r])
  show "paused_count (step e (Intersection [True]) s) = c"
    using k by (simp add: eq observer_entry_steady [OF r])
  show "\<not> pause_pending (step e (Intersection [True]) s)"
    using cleared_observer_entry [OF n, of e True] by (simp add: eq)
  show "isVisible (step e (Intersection [True]) s)"
    by (simp add: eq observer_entry_values)
qed

text \<open>
  C2. Take any state the page can reach in which the observer exists and the hero is visible.
  Let the intersection signal go hidden there, let anything but an intersection signal happen
  after that, and let the signal return to visible, all of it less than \<open>PAUSE_DELAY\<close> (500
  ms) after the signal went hidden. Then at every moment of the absence and after the return
  the loop is on, the clock runs and the pause has not been announced once more (the script
  announces a pause with the log line \<^verbatim>\<open>Rendering paused\<close>; it dispatches no event
  for it); after the return no pause timer is pending, so the absence cannot stop the loop
  later either.
\<close>

theorem short_absence_never_pauses:
  assumes "observer (run es (boot e0 m))" and "isVisible (run es (boot e0 m))"
    and "\<forall>x \<in> set between. now (fst x) \<le> now e2 \<and> \<not> is_intersection (snd x)"
    and "now e2 < now e1 + PAUSE_DELAY"
  shows "pause_pending (step e1 (Intersection [False]) (run es (boot e0 m))) \<and>
         isRendering (run between (step e1 (Intersection [False]) (run es (boot e0 m)))) \<and>
         running (clock (run between (step e1 (Intersection [False]) (run es (boot e0 m))))) \<and>
         paused_count (run between (step e1 (Intersection [False]) (run es (boot e0 m))))
           = paused_count (run es (boot e0 m)) \<and>
         isRendering (step e2 (Intersection [True])
           (run between (step e1 (Intersection [False]) (run es (boot e0 m))))) \<and>
         running (clock (step e2 (Intersection [True])
           (run between (step e1 (Intersection [False]) (run es (boot e0 m)))))) \<and>
         paused_count (step e2 (Intersection [True])
           (run between (step e1 (Intersection [False]) (run es (boot e0 m)))))
           = paused_count (run es (boot e0 m)) \<and>
         \<not> pause_pending (step e2 (Intersection [True])
           (run between (step e1 (Intersection [False]) (run es (boot e0 m)))))"
proof -
  let ?s = "run es (boot e0 m)"
  let ?s1 = "step e1 (Intersection [False]) ?s"
  let ?s2 = "run between ?s1"
  note h = waiting_hidden [OF pause_ok_reachable assms(1,2), of e1]
  from assms(3,4)
  have "\<forall>x \<in> set between. now (fst x) < now e1 + PAUSE_DELAY \<and> \<not> is_intersection (snd x)"
    by force
  from waiting_run [OF h(1) this]
  have w: "waiting (now e1 + PAUSE_DELAY) (paused_count ?s) ?s2" .
  from w have "isRendering ?s2" "running (clock ?s2)" "paused_count ?s2 = paused_count ?s"
    by (simp_all add: waiting_def)
  with h(2) waiting_visible [OF w, of e2] show ?thesis by simp
qed

theorem short_absence_never_pauses_witness:
  "observer (run [(at_ms 10, ModelLoaded 0)] (boot (at_ms 0) Webflow)) \<and>
   isVisible (run [(at_ms 10, ModelLoaded 0)] (boot (at_ms 0) Webflow)) \<and>
   now (at_ms 1300) < now (at_ms 1000) + PAUSE_DELAY \<and>
   pause_pending
     (step (at_ms 1000) (Intersection [False])
        (run [(at_ms 10, ModelLoaded 0)] (boot (at_ms 0) Webflow))) \<and>
   isRendering
     (step (at_ms 1300) (Intersection [True])
        (run [(at_ms 1016, AnimationFrame 1), (at_ms 1200, Timeout 1)]
           (step (at_ms 1000) (Intersection [False])
              (run [(at_ms 10, ModelLoaded 0)] (boot (at_ms 0) Webflow))))) \<and>
   \<not> pause_pending
     (step (at_ms 1300) (Intersection [True])
        (run [(at_ms 1016, AnimationFrame 1), (at_ms 1200, Timeout 1)]
           (step (at_ms 1000) (Intersection [False])
              (run [(at_ms 10, ModelLoaded 0)] (boot (at_ms 0) Webflow))))) \<and>
   paused_count
     (step (at_ms 1300) (Intersection [True])
        (run [(at_ms 1016, AnimationFrame 1), (at_ms 1200, Timeout 1)]
           (step (at_ms 1000) (Intersection [False])
              (run [(at_ms 10, ModelLoaded 0)] (boot (at_ms 0) Webflow))))) = 0"
proof -
  have o: "observer (run [(at_ms 10, ModelLoaded 0)] (boot (at_ms 0) Webflow))" by code_simp
  have v: "isVisible (run [(at_ms 10, ModelLoaded 0)] (boot (at_ms 0) Webflow))" by code_simp
  have b: "\<forall>x \<in> set [(at_ms 1016, AnimationFrame 1), (at_ms 1200, Timeout 1)].
             now (fst x) \<le> now (at_ms 1300) \<and> \<not> is_intersection (snd x)"
    by (simp add: at_ms_def)
  have t: "now (at_ms 1300) < now (at_ms 1000) + PAUSE_DELAY"
    by (simp add: at_ms_def PAUSE_DELAY_def)
  have z: "paused_count (run [(at_ms 10, ModelLoaded 0)] (boot (at_ms 0) Webflow)) = 0"
    by code_simp
  from short_absence_never_pauses [OF o v b t] o v t z show ?thesis by simp
qed

end
